theory Spec2Isabelle
  imports Main
begin

section \<open>Python values and errors\<close>

text \<open>
  The deployment script \<^verbatim>\<open>fabric/fabfile.py\<close> is Python 2 on top of Fabric 1.x.
  Strings are byte strings, modelled as \<^typ>\<open>string\<close>.  Every exception the modelled
  code can raise is a constructor of \<open>error\<close>; Fabric aborting the run because a remote
  command exited with a nonzero status is \<open>Abort\<close> with the command.
\<close>

datatype error =
    KeyError string
  | ValueError
  | IOError string
  | Abort string
  | NameError string
  | AttributeError string
  | Unmodelled

datatype py_value = PyNone | PyTrue

type_synonym environment = "string \<rightharpoonup> string"

section \<open>String operations\<close>

fun starts_with :: "string \<Rightarrow> string \<Rightarrow> bool" where
  "starts_with [] s = True"
| "starts_with (p # ps) [] = False"
| "starts_with (p # ps) (c # cs) = (p = c \<and> starts_with ps cs)"

text \<open>Python's \<^verbatim>\<open>sub in s\<close> on strings.\<close>

fun contains :: "string \<Rightarrow> string \<Rightarrow> bool" where
  "contains sub [] = (sub = [])"
| "contains sub (c # cs) = (starts_with sub (c # cs) \<or> contains sub cs)"

text \<open>\<^verbatim>\<open>s.replace(c, "")\<close> for a one-character \<open>c\<close>.\<close>

definition remove_char :: "char \<Rightarrow> string \<Rightarrow> string" where
  "remove_char c s = filter (\<lambda>x. x \<noteq> c) s"

text \<open>The characters \<^verbatim>\<open>str.strip()\<close> removes: space, tab, LF, VT, FF, CR.\<close>

definition is_space :: "char \<Rightarrow> bool" where
  "is_space c = (c \<in> set [CHR '' '', CHR 0x09, CHR 0x0A, CHR 0x0B, CHR 0x0C, CHR 0x0D])"

definition strip :: "string \<Rightarrow> string" where
  "strip s = rev (dropWhile is_space (rev (dropWhile is_space s)))"

text \<open>
  Line 155: \<^verbatim>\<open>clean = lambda s: s.replace("\n", "").replace("\r", "").strip()\<close>
\<close>

definition clean :: "string \<Rightarrow> string" where
  "clean s = strip (remove_char (CHR 0x0D) (remove_char (CHR 0x0A) s))"

section \<open>The \<^verbatim>\<open>%\<close> operator with a mapping\<close>

text \<open>
  \<^verbatim>\<open>v % env\<close> scans the format string from left to right.  The scanner is a state
  machine: \<open>Text\<close> copies characters; \<open>Pct\<close> has just read a \<^verbatim>\<open>%\<close>; \<open>InKey d k\<close> is
  inside a parenthesised key at nesting depth \<open>d\<close> with \<open>k\<close> read so far; \<open>Conv v\<close> has
  looked the key up (raising \<^verbatim>\<open>KeyError\<close> at once when it is absent) and expects the
  conversion character.  The conversions \<^verbatim>\<open>%(key)s\<close>, \<^verbatim>\<open>%(key)%\<close> and \<^verbatim>\<open>%%\<close> are
  modelled; a format that ends inside a specifier raises \<^verbatim>\<open>ValueError\<close>; every other
  specifier (flags, widths, other conversions, a specifier without a key) is outside the
  modelled fragment and yields \<open>Unmodelled\<close>.
\<close>

datatype fstate = Text | Pct | InKey nat string | Conv string

fun fmt :: "environment \<Rightarrow> fstate \<Rightarrow> string \<Rightarrow> string \<Rightarrow> error + string" where
  "fmt env Text acc [] = Inr acc"
| "fmt env Text acc (c # cs) =
     (if c = CHR ''%'' then fmt env Pct acc cs else fmt env Text (acc @ [c]) cs)"
| "fmt env Pct acc [] = Inl ValueError"
| "fmt env Pct acc (c # cs) =
     (if c = CHR ''('' then fmt env (InKey 1 []) acc cs
      else if c = CHR ''%'' then fmt env Text (acc @ ''%'') cs
      else Inl Unmodelled)"
| "fmt env (InKey d k) acc [] = Inl ValueError"
| "fmt env (InKey d k) acc (c # cs) =
     (if c = CHR '')'' \<and> d = 1 then
        (case env k of
           None \<Rightarrow> Inl (KeyError k)
         | Some v \<Rightarrow> fmt env (Conv v) acc cs)
      else if c = CHR '')'' then fmt env (InKey (d - 1) (k @ [c])) acc cs
      else if c = CHR ''('' then fmt env (InKey (d + 1) (k @ [c])) acc cs
      else fmt env (InKey d (k @ [c])) acc cs)"
| "fmt env (Conv v) acc [] = Inl ValueError"
| "fmt env (Conv v) acc (c # cs) =
     (if c = CHR ''s'' then fmt env Text (acc @ v) cs
      else if c = CHR ''%'' then fmt env Text (acc @ ''%'') cs
      else Inl Unmodelled)"

definition py_format :: "string \<Rightarrow> environment \<Rightarrow> error + string" where
  "py_format s env = fmt env Text [] s"

section \<open>The remote host, the local disk and the run's state\<close>

text \<open>
  Fabric's remote operations are the external collaborator.  Each call is recorded in
  \<open>trace\<close>, oldest first.  \<open>remote\<close> maps a remote path to the content of the file
  there, \<open>local_files\<close> a local path to the content of the file there, \<open>env\<close> is
  Fabric's global \<^verbatim>\<open>env\<close> (each value as \<^verbatim>\<open>%s\<close> prints it).  A command listed in
  \<open>failing\<close> exits with a nonzero status, on which Fabric aborts the run; \<open>put_ok\<close>
  says whether a file transfer succeeds.  \<open>head\<close> is the revision checked out in the
  project's directory on the remote host and \<open>origin_master\<close> the latest revision of
  the upstream branch.  Uploads and the three git command lines of \<^verbatim>\<open>deploy\<close> and
  \<^verbatim>\<open>rollback\<close> are the only operations that change the remote state in this model;
  every other command is recorded and has no modelled effect.
\<close>

datatype event =
    Exists string
  | Sudo string
  | Run string
  | Upload string string
  | DbPass

record world =
  env :: environment
  local_files :: "string \<rightharpoonup> string"
  remote :: "string \<rightharpoonup> string"
  failing :: "string list"
  put_ok :: bool
  head :: string
  origin_master :: string
  trace :: "event list"

type_synonym 'a action = "world \<Rightarrow> (error + 'a) \<times> world"

definition log :: "event \<Rightarrow> world \<Rightarrow> world" where
  "log e w = w\<lparr>trace := trace w @ [e]\<rparr>"

text \<open>\<^verbatim>\<open>fabric.contrib.files.exists(path)\<close>\<close>

definition exists_remote :: "string \<Rightarrow> world \<Rightarrow> bool \<times> world" where
  "exists_remote path w = (remote w path \<noteq> None, log (Exists path) w)"

text \<open>
  Lines 106-113, \<^verbatim>\<open>sudo(command)\<close>: runs the command with elevated privileges and
  returns its output.  The output of \<^verbatim>\<open>cat path\<close> is taken to be the content of the file
  as stored (what the terminal does to line ends and outer whitespace on the way back is
  not modelled); the output of any other command is not inspected by the modelled code
  and is the empty string.
\<close>

definition cat_output :: "string \<Rightarrow> world \<Rightarrow> string" where
  "cat_output command w =
     (if starts_with ''cat '' command then
        (case remote w (drop 4 command) of None \<Rightarrow> [] | Some data \<Rightarrow> data)
      else [])"

definition sudo :: "string \<Rightarrow> string action" where
  "sudo command w =
     (let w' = log (Sudo command) w in
      if command \<in> set (failing w) then (Inl (Abort command), w')
      else (Inr (cat_output command w), w'))"

text \<open>
  Lines 69-75 and 94-102: \<^verbatim>\<open>run(command)\<close> inside \<^verbatim>\<open>with project():\<close>, which is
  \<^verbatim>\<open>with cd(env.proj_path):\<close>, so Fabric sends \<^verbatim>\<open>cd path && command\<close>.  The effect of the
  three git command lines: \<^verbatim>\<open>git rev-parse HEAD > last.commit\<close> writes the checked-out
  revision to the file \<^verbatim>\<open>last.commit\<close> of the directory, \<^verbatim>\<open>git pull origin master\<close>
  moves the checkout to the latest upstream revision, and
  \<^verbatim>\<open>git checkout `cat last.commit`\<close> moves it to the revision named in the file and
  fails when the file is absent.
\<close>

definition in_project :: "string \<Rightarrow> string \<Rightarrow> string" where
  "in_project proj_path command = ''cd '' @ proj_path @ '' && '' @ command"

definition git_effect :: "string \<Rightarrow> string \<Rightarrow> world \<Rightarrow> world option" where
  "git_effect proj_path command w =
     (if command = ''git rev-parse HEAD > last.commit'' then
        Some (w\<lparr>remote := (remote w)(proj_path @ ''/last.commit'' \<mapsto> head w)\<rparr>)
      else if command = ''git pull origin master'' then
        Some (w\<lparr>head := origin_master w\<rparr>)
      else if command = ''git checkout `cat last.commit`'' then
        (case remote w (proj_path @ ''/last.commit'') of
           None \<Rightarrow> None
         | Some revision \<Rightarrow> Some (w\<lparr>head := revision\<rparr>))
      else Some w)"

definition run_in :: "string \<Rightarrow> string \<Rightarrow> string action" where
  "run_in proj_path command w =
     (let w' = log (Run (in_project proj_path command)) w in
      if in_project proj_path command \<in> set (failing w) then
        (Inl (Abort (in_project proj_path command)), w')
      else (case git_effect proj_path command w' of
              None \<Rightarrow> (Inl (Abort (in_project proj_path command)), w')
            | Some w'' \<Rightarrow> (Inr [], w'')))"

text \<open>
  \<^verbatim>\<open>fabric.contrib.files.upload_template(filename, destination, context, use_sudo=True,
  backup=False)\<close>: reads the local file, renders it with \<^verbatim>\<open>text % context\<close> and writes the
  result to the destination, overwriting it and keeping no backup.  The transfer is
  recorded as \<open>Upload destination content\<close> whether or not it succeeds.
\<close>

definition upload_template :: "string \<Rightarrow> string \<Rightarrow> unit action" where
  "upload_template filename destination w =
     (case local_files w filename of
        None \<Rightarrow> (Inl (IOError filename), w)
      | Some text \<Rightarrow>
          (case py_format text (env w) of
             Inl e \<Rightarrow> (Inl e, w)
           | Inr rendered \<Rightarrow>
               (let w' = log (Upload destination rendered) w in
                if put_ok w then (Inr (), w'\<lparr>remote := (remote w)(destination \<mapsto> rendered)\<rparr>)
                else (Inl (Abort (''put '' @ destination)), w'))))"

section \<open>Template registry\<close>

text \<open>
  A template is a Python dict from field name to string, the registry a dict from
  template name to template.  Both are association lists in the dict's iteration order,
  which decides which error is raised first.
\<close>

type_synonym template = "(string \<times> string) list"
type_synonym registry = "(string \<times> template) list"

text \<open>Lines 51-62.\<close>

definition templates :: registry where
  "templates =
     [(''nginx'',
        [(''local_path'', ''deploy/nginx.conf''),
         (''remote_path'', ''/etc/nginx/sites-enabled/%(live_host)s.conf''),
         (''reload_command'', ''service nginx restart'')]),
      (''supervisor'',
        [(''local_path'', ''deploy/supervisor.conf''),
         (''remote_path'', ''/etc/supervisor/conf.d/%(proj_name)s.conf''),
         (''reload_command'', ''supervisorctl reload'')])]"

text \<open>Line 131: \<^verbatim>\<open>dict([(k, v % env) for k, v in data.items()])\<close>\<close>

fun inject :: "environment \<Rightarrow> template \<Rightarrow> error + template" where
  "inject e [] = Inr []"
| "inject e ((k, v) # kvs) =
     (case py_format v e of
        Inl err \<Rightarrow> Inl err
      | Inr v' \<Rightarrow> (case inject e kvs of Inl err \<Rightarrow> Inl err | Inr kvs' \<Rightarrow> Inr ((k, v') # kvs')))"

text \<open>Lines 125-132.\<close>

fun get_templates :: "registry \<Rightarrow> environment \<Rightarrow> error + registry" where
  "get_templates [] e = Inr []"
| "get_templates ((name, data) # ts) e =
     (case inject e data of
        Inl err \<Rightarrow> Inl err
      | Inr data' \<Rightarrow>
          (case get_templates ts e of Inl err \<Rightarrow> Inl err | Inr ts' \<Rightarrow> Inr ((name, data') # ts')))"

text \<open>\<^verbatim>\<open>d[key]\<close> raises \<^verbatim>\<open>KeyError\<close> on a missing key; \<^verbatim>\<open>d.get(key)\<close> gives \<^verbatim>\<open>None\<close>.\<close>

definition subscript :: "(string \<times> 'a) list \<Rightarrow> string \<Rightarrow> error + 'a" where
  "subscript d key = (case map_of d key of None \<Rightarrow> Inl (KeyError key) | Some v \<Rightarrow> Inr v)"

section \<open>Template synchronisation\<close>

text \<open>
  The function \<^verbatim>\<open>db_pass\<close> that line 153 calls is defined nowhere in the file; it is a
  parameter of the model: a function of the environment that returns the secret or
  fails.  A call that returns a secret is recorded as a \<open>DbPass\<close> event; with the file
  as it is, evaluating the name raises \<^verbatim>\<open>NameError\<close> and no call is made
  (\<open>undefined_db_pass\<close> below).
\<close>

type_synonym secret_source = "environment \<Rightarrow> error + string"

text \<open>Lines 146-149: the remote content, the empty string when the path is absent.\<close>

definition read_remote :: "string \<Rightarrow> string action" where
  "read_remote remote_path w =
     (case exists_remote remote_path w of
        (present, w1) \<Rightarrow>
          if present then sudo (''cat '' @ remote_path) w1 else (Inr [], w1))"

text \<open>Lines 150-154: the local template rendered with the environment.\<close>

definition render_local :: "secret_source \<Rightarrow> string \<Rightarrow> string action" where
  "render_local db_pass local_path w =
     (case local_files w local_path of
        None \<Rightarrow> (Inl (IOError local_path), w)
      | Some local_data \<Rightarrow>
          if contains ''%(db_pass)s'' local_data then
            (case db_pass (env w) of
               Inl e \<Rightarrow> (Inl e, w)
             | Inr v \<Rightarrow>
                 (let w1 = (log DbPass w)\<lparr>env := (env w)(''db_pass'' \<mapsto> v)\<rparr>
                  in (py_format local_data (env w1), w1)))
          else (py_format local_data (env w), w))"

text \<open>
  \<^verbatim>\<open>if value: sudo(command value)\<close>, for lines 159-164: the command is sent when the
  field is set and is not the empty string.
\<close>

definition sudo_if :: "string option \<Rightarrow> (string \<Rightarrow> string) \<Rightarrow> unit action" where
  "sudo_if value command w =
     (case value of
        None \<Rightarrow> (Inr (), w)
      | Some v \<Rightarrow>
          if v = [] then (Inr (), w)
          else (case sudo (command v) w of
                  (Inl e, w1) \<Rightarrow> (Inl e, w1)
                | (Inr out, w1) \<Rightarrow> (Inr (), w1)))"

text \<open>Lines 158-164: upload, then owner, mode and reload.\<close>

definition upload_and_reload ::
  "string \<Rightarrow> string \<Rightarrow> string option \<Rightarrow> string option \<Rightarrow> string option \<Rightarrow> py_value action" where
  "upload_and_reload local_path remote_path owner mode reload_command w =
     (case upload_template local_path remote_path w of
        (Inl e, w1) \<Rightarrow> (Inl e, w1)
      | (Inr u, w1) \<Rightarrow>
     (case sudo_if owner (\<lambda>v. ''chown '' @ v @ '' '' @ remote_path) w1 of
        (Inl e, w2) \<Rightarrow> (Inl e, w2)
      | (Inr u, w2) \<Rightarrow>
     (case sudo_if mode (\<lambda>v. ''chmod '' @ v @ '' '' @ remote_path) w2 of
        (Inl e, w3) \<Rightarrow> (Inl e, w3)
      | (Inr u, w3) \<Rightarrow>
     (case sudo_if reload_command (\<lambda>v. v) w3 of
        (Inl e, w4) \<Rightarrow> (Inl e, w4)
      | (Inr u, w4) \<Rightarrow> (Inr PyNone, w4)))))"

text \<open>
  Lines 140-154: the resolved template, the remote content and the rendered local
  content that line 156 compares.
\<close>

definition prepare ::
  "registry \<Rightarrow> secret_source \<Rightarrow> string \<Rightarrow> (template \<times> string \<times> string) action" where
  "prepare tpls db_pass name w =
     (case get_templates tpls (env w) of
        Inl e \<Rightarrow> (Inl e, w)
      | Inr injected \<Rightarrow>
     (case subscript injected name of
        Inl e \<Rightarrow> (Inl e, w)
      | Inr template \<Rightarrow>
     (case subscript template ''local_path'' of
        Inl e \<Rightarrow> (Inl e, w)
      | Inr local_path \<Rightarrow>
     (case subscript template ''remote_path'' of
        Inl e \<Rightarrow> (Inl e, w)
      | Inr remote_path \<Rightarrow>
     (case read_remote remote_path w of
        (Inl e, w1) \<Rightarrow> (Inl e, w1)
      | (Inr remote_data, w1) \<Rightarrow>
     (case render_local db_pass local_path w1 of
        (Inl e, w2) \<Rightarrow> (Inl e, w2)
      | (Inr local_data, w2) \<Rightarrow> (Inr (template, remote_data, local_data), w2)))))))"

text \<open>\<^verbatim>\<open>template[key]\<close> for a key that \<open>prepare\<close> has already read.\<close>

definition field :: "template \<Rightarrow> string \<Rightarrow> string" where
  "field template key = (case map_of template key of None \<Rightarrow> [] | Some v \<Rightarrow> v)"

text \<open>Lines 135-164.  The registry is the global \<^verbatim>\<open>templates\<close>.\<close>

definition upload_template_and_reload ::
  "registry \<Rightarrow> secret_source \<Rightarrow> string \<Rightarrow> py_value action" where
  "upload_template_and_reload tpls db_pass name w =
     (case prepare tpls db_pass name w of
        (Inl e, w2) \<Rightarrow> (Inl e, w2)
      | (Inr (template, remote_data, local_data), w2) \<Rightarrow>
          if clean remote_data = clean local_data then (Inr PyNone, w2)
          else upload_and_reload (field template ''local_path'') (field template ''remote_path'')
                 (map_of template ''owner'') (map_of template ''mode'')
                 (map_of template ''reload_command'') w2)"

section \<open>Deployment\<close>

text \<open>\<^verbatim>\<open>env.name\<close>: attribute access on Fabric's environment.\<close>

definition env_attr :: "string \<Rightarrow> world \<Rightarrow> error + string" where
  "env_attr name w = (case env w name of None \<Rightarrow> Inl (AttributeError name) | Some v \<Rightarrow> Inr v)"

text \<open>Lines 222-232.\<close>

definition restart :: "py_value action" where
  "restart w =
     (case exists_remote ''/var/run/nginx.pid'' w of
        (present, w1) \<Rightarrow>
          if present then
            (case sudo ''kill -HUP `cat /var/run/nginx.pid`'' w1 of
               (Inl e, w2) \<Rightarrow> (Inl e, w2)
             | (Inr out, w2) \<Rightarrow> (Inr PyNone, w2))
          else
            (case env_attr ''proj_name'' w1 of
               Inl e \<Rightarrow> (Inl e, w1)
             | Inr proj_name \<Rightarrow>
                 (case sudo (''supervisorctl start '' @ proj_name @ '':nginx'') w1 of
                    (Inl e, w2) \<Rightarrow> (Inl e, w2)
                  | (Inr out, w2) \<Rightarrow> (Inr PyNone, w2))))"

text \<open>Lines 242-243: the loop over the template names.\<close>

fun sync_all :: "registry \<Rightarrow> secret_source \<Rightarrow> string list \<Rightarrow> unit action" where
  "sync_all tpls db_pass [] w = (Inr (), w)"
| "sync_all tpls db_pass (name # names) w =
     (case upload_template_and_reload tpls db_pass name w of
        (Inl e, w1) \<Rightarrow> (Inl e, w1)
      | (Inr r, w1) \<Rightarrow> sync_all tpls db_pass names w1)"

text \<open>Lines 244-246.\<close>

definition record_and_pull :: "unit action" where
  "record_and_pull w =
     (case env_attr ''proj_path'' w of
        Inl e \<Rightarrow> (Inl e, w)
      | Inr proj_path \<Rightarrow>
          (case run_in proj_path ''git rev-parse HEAD > last.commit'' w of
             (Inl e, w1) \<Rightarrow> (Inl e, w1)
           | (Inr out, w1) \<Rightarrow>
               (case run_in proj_path ''git pull origin master'' w1 of
                  (Inl e, w2) \<Rightarrow> (Inl e, w2)
                | (Inr out, w2) \<Rightarrow> (Inr (), w2))))"

text \<open>Lines 235-248.\<close>

definition deploy :: "registry \<Rightarrow> secret_source \<Rightarrow> py_value action" where
  "deploy tpls db_pass w =
     (case get_templates tpls (env w) of
        Inl e \<Rightarrow> (Inl e, w)
      | Inr injected \<Rightarrow>
     (case sync_all tpls db_pass (map fst injected) w of
        (Inl e, w1) \<Rightarrow> (Inl e, w1)
      | (Inr u, w1) \<Rightarrow>
     (case record_and_pull w1 of
        (Inl e, w2) \<Rightarrow> (Inl e, w2)
      | (Inr u, w2) \<Rightarrow>
     (case restart w2 of
        (Inl e, w3) \<Rightarrow> (Inl e, w3)
      | (Inr r, w3) \<Rightarrow> (Inr PyTrue, w3)))))"

text \<open>Lines 251-263.\<close>

definition rollback :: "py_value action" where
  "rollback w =
     (case env_attr ''proj_path'' w of
        Inl e \<Rightarrow> (Inl e, w)
      | Inr proj_path \<Rightarrow>
          (case run_in proj_path ''git checkout `cat last.commit`'' w of
             (Inl e, w1) \<Rightarrow> (Inl e, w1)
           | (Inr out, w1) \<Rightarrow> restart w1))"

section \<open>Observations on a run\<close>

text \<open>The events a call added to the trace.\<close>

definition new_events :: "world \<Rightarrow> world \<Rightarrow> event list" where
  "new_events w w' = drop (length (trace w)) (trace w')"

text \<open>The command that \<open>sudo_if\<close> sends for a field, if any.\<close>

definition command_of :: "string option \<Rightarrow> (string \<Rightarrow> string) \<Rightarrow> string list" where
  "command_of v f = (case v of None \<Rightarrow> [] | Some x \<Rightarrow> if x = [] then [] else [f x])"

text \<open>The commands of lines 159-164 for a resolved template, in the order of the code.\<close>

definition commands :: "template \<Rightarrow> string list" where
  "commands t =
     command_of (map_of t ''owner'') (\<lambda>v. ''chown '' @ v @ '' '' @ field t ''remote_path'')
     @ command_of (map_of t ''mode'') (\<lambda>v. ''chmod '' @ v @ '' '' @ field t ''remote_path'')
     @ command_of (map_of t ''reload_command'') (\<lambda>v. v)"

text \<open>The commands sent when the run aborts at the first one that fails.\<close>

fun issued :: "string list \<Rightarrow> string list \<Rightarrow> string list" where
  "issued bad [] = []"
| "issued bad (c # cs) = c # (if c \<in> set bad then [] else issued bad cs)"

text \<open>What no modelled operation of a synchronisation changes.\<close>

definition same_host :: "world \<Rightarrow> world \<Rightarrow> bool" where
  "same_host w w' = (local_files w' = local_files w \<and> failing w' = failing w
     \<and> put_ok w' = put_ok w \<and> head w' = head w \<and> origin_master w' = origin_master w)"

section \<open>Placeholder substitution as the specification describes it\<close>

text \<open>
  The specification describes a template as text with \<^verbatim>\<open>%(key)s\<close> placeholders, each
  replaced by the value of its key, the substitution failing when a key is missing.  A
  template is a list of pieces: a literal character or a placeholder.  \<open>template_text\<close>
  is the format string that stands for it (a literal percent sign is written
  \<^verbatim>\<open>%%\<close>), and \<open>spec_substitute\<close> is the substitution in the specification's words.
  It is compared with \<open>py_format\<close>, the operator the code uses.
\<close>

datatype piece = Lit char | Placeholder string

fun piece_text :: "piece \<Rightarrow> string" where
  "piece_text (Lit c) = (if c = CHR ''%'' then ''%%'' else [c])"
| "piece_text (Placeholder k) = ''%('' @ k @ '')s''"

definition template_text :: "piece list \<Rightarrow> string" where
  "template_text ps = concat (map piece_text ps)"

fun spec_substitute :: "environment \<Rightarrow> piece list \<Rightarrow> error + string" where
  "spec_substitute e [] = Inr []"
| "spec_substitute e (Lit c # ps) =
     (case spec_substitute e ps of Inl err \<Rightarrow> Inl err | Inr s \<Rightarrow> Inr (c # s))"
| "spec_substitute e (Placeholder k # ps) =
     (case e k of
        None \<Rightarrow> Inl (KeyError k)
      | Some v \<Rightarrow> (case spec_substitute e ps of Inl err \<Rightarrow> Inl err | Inr s \<Rightarrow> Inr (v @ s)))"

text \<open>The text a piece stands for once every key has a value.\<close>

fun expand :: "environment \<Rightarrow> piece \<Rightarrow> string" where
  "expand e (Lit c) = [c]"
| "expand e (Placeholder k) = (case e k of None \<Rightarrow> [] | Some v \<Rightarrow> v)"

text \<open>A key without parentheses.\<close>

fun plain :: "piece \<Rightarrow> bool" where
  "plain (Lit c) = True"
| "plain (Placeholder k) = (CHR ''('' \<notin> set k \<and> CHR '')'' \<notin> set k)"

text \<open>A template, and a registry, given by their pieces.\<close>

definition fields_text :: "(string \<times> piece list) list \<Rightarrow> template" where
  "fields_text d = map (\<lambda>(k, ps). (k, template_text ps)) d"

definition registry_text :: "(string \<times> (string \<times> piece list) list) list \<Rightarrow> registry" where
  "registry_text r = map (\<lambda>(name, d). (name, fields_text d)) r"

definition fields_pieces :: "(string \<times> piece list) list \<Rightarrow> piece list" where
  "fields_pieces d = concat (map snd d)"

definition registry_pieces :: "(string \<times> (string \<times> piece list) list) list \<Rightarrow> piece list" where
  "registry_pieces r = concat (map (\<lambda>(name, d). fields_pieces d) r)"

section \<open>Example runs\<close>

text \<open>
  A host for the registry of the file: \<open>example_world r l\<close> has the nginx template
  \<open>l\<close> on the local disk and, when \<open>r\<close> is set, the content \<open>r\<close> at its remote path.
\<close>

definition example_env :: environment where
  "example_env = [''live_host'' \<mapsto> ''ex.org'', ''proj_name'' \<mapsto> ''blog'',
                  ''proj_path'' \<mapsto> ''/home/u/blog'']"

definition example_world :: "string option \<Rightarrow> string \<Rightarrow> world" where
  "example_world r l =
     \<lparr>env = example_env,
      local_files = [''deploy/nginx.conf'' \<mapsto> l,
                     ''deploy/supervisor.conf'' \<mapsto> ''[program:%(proj_name)s]''],
      remote = (case r of None \<Rightarrow> Map.empty
                | Some d \<Rightarrow> [''/etc/nginx/sites-enabled/ex.org.conf'' \<mapsto> d]),
      failing = [], put_ok = True, head = ''r1'', origin_master = ''r2'', trace = []\<rparr>"

text \<open>The file defines no \<^verbatim>\<open>db_pass\<close>: calling it raises \<^verbatim>\<open>NameError\<close>.\<close>

definition undefined_db_pass :: secret_source where
  "undefined_db_pass e = Inl (NameError ''db_pass'')"

text \<open>A \<^verbatim>\<open>db_pass\<close> that returns a fixed password.\<close>

definition fixed_db_pass :: secret_source where
  "fixed_db_pass e = Inr ''s3cret''"

text \<open>A registry with one template that sets an owner and a mode.\<close>

definition owned_templates :: registry where
  "owned_templates =
     [(''settings'',
        [(''local_path'', ''deploy/local_settings.py''),
         (''remote_path'', ''%(proj_path)s/local_settings.py''),
         (''owner'', ''www-data''),
         (''mode'', ''640''),
         (''reload_command'', ''supervisorctl reload'')])]"

definition owned_world :: "string list \<Rightarrow> bool \<Rightarrow> world" where
  "owned_world bad ok =
     \<lparr>env = example_env,
      local_files = [''deploy/local_settings.py'' \<mapsto> ''PASSWORD = %(db_pass)s''],
      remote = Map.empty,
      failing = bad, put_ok = ok, head = ''r1'', origin_master = ''r2'', trace = []\<rparr>"

text \<open>The registry of the file, by pieces.\<close>

definition templates_pieces :: "(string \<times> (string \<times> piece list) list) list" where
  "templates_pieces =
     [(''nginx'',
        [(''local_path'', map Lit ''deploy/nginx.conf''),
         (''remote_path'',
            map Lit ''/etc/nginx/sites-enabled/'' @ [Placeholder ''live_host''] @ map Lit ''.conf''),
         (''reload_command'', map Lit ''service nginx restart'')]),
      (''supervisor'',
        [(''local_path'', map Lit ''deploy/supervisor.conf''),
         (''remote_path'',
            map Lit ''/etc/supervisor/conf.d/'' @ [Placeholder ''proj_name''] @ map Lit ''.conf''),
         (''reload_command'', map Lit ''supervisorctl reload'')])]"

text \<open>The host after the first synchronisation of the nginx template.\<close>

definition first_upload :: world where
  "first_upload =
     (example_world None ''new'')
        \<lparr>remote := [''/etc/nginx/sites-enabled/ex.org.conf'' \<mapsto> ''new''],
         trace := [Exists ''/etc/nginx/sites-enabled/ex.org.conf'',
                   Upload ''/etc/nginx/sites-enabled/ex.org.conf'' ''new'',
                   Sudo ''service nginx restart'']\<rparr>"

section \<open>Properties\<close>

subsection \<open>Normalisation\<close>

lemma strip_decompose:
  "\<exists>pre suf. s = pre @ strip s @ suf \<and> list_all is_space pre \<and> list_all is_space suf"
proof -
  let ?a = "takeWhile is_space s"
  let ?m = "dropWhile is_space s"
  let ?b = "takeWhile is_space (rev ?m)"
  have 1: "s = ?a @ ?m" by simp
  have "rev ?m = ?b @ dropWhile is_space (rev ?m)" by simp
  then have "?m = rev (dropWhile is_space (rev ?m)) @ rev ?b"
    by (metis rev_append rev_rev_ident)
  then have 2: "?m = strip s @ rev ?b" by (simp add: strip_def)
  have 3: "list_all is_space ?a"
    by (simp add: list_all_iff) (meson set_takeWhileD)
  have 4: "list_all is_space (rev ?b)"
    by (simp add: list_all_iff) (meson set_takeWhileD)
  from 1 2 have "s = ?a @ strip s @ rev ?b" by metis
  with 3 4 show ?thesis by blast
qed

lemma strip_ends:
  "strip s = [] \<or> (\<not> is_space (hd (strip s)) \<and> \<not> is_space (last (strip s)))"
proof (cases "strip s = []")
  case True then show ?thesis by simp
next
  case False
  let ?m = "dropWhile is_space s"
  let ?r = "dropWhile is_space (rev ?m)"
  from False have r: "?r \<noteq> []" by (simp add: strip_def)
  then have l: "\<not> is_space (hd ?r)" by (rule hd_dropWhile)
  have last: "last (strip s) = hd ?r" using r by (simp add: strip_def last_rev)
  have "?m \<noteq> []" using r by (metis dropWhile.simps(1) rev.simps(1))
  then have hm: "\<not> is_space (hd ?m)" by (rule hd_dropWhile)
  have "hd (strip s) = last ?r" using r by (simp add: strip_def hd_rev)
  also have "last ?r = last (rev ?m)"
    by (metis r takeWhile_dropWhile_id last_appendR)
  also have "\<dots> = hd ?m" using \<open>?m \<noteq> []\<close> by (simp add: last_rev)
  finally show ?thesis using hm l last by simp
qed

lemma clean_filter:
  "clean s = strip (filter (\<lambda>c. c \<noteq> CHR 0x0A \<and> c \<noteq> CHR 0x0D) s)"
  by (simp add: clean_def remove_char_def)

lemma clean_no_breaks: "CHR 0x0A \<notin> set (clean s) \<and> CHR 0x0D \<notin> set (clean s)"
proof -
  let ?t = "remove_char (CHR 0x0D) (remove_char (CHR 0x0A) s)"
  have "set (strip ?t) \<subseteq> set ?t"
    unfolding strip_def by (metis set_rev set_dropWhileD subsetI)
  moreover have "CHR 0x0A \<notin> set ?t \<and> CHR 0x0D \<notin> set ?t"
    by (auto simp: remove_char_def)
  ultimately show ?thesis unfolding clean_def by blast
qed

subsection \<open>The remote operations\<close>

lemma read_remote_absent:
  "remote w rp = None \<Longrightarrow> read_remote rp w = (Inr [], w\<lparr>trace := trace w @ [Exists rp]\<rparr>)"
  by (simp add: read_remote_def exists_remote_def log_def)

lemma read_remote_present:
  "remote w rp = Some d \<Longrightarrow> read_remote rp w =
     (if ''cat '' @ rp \<in> set (failing w) then Inl (Abort (''cat '' @ rp)) else Inr d,
      w\<lparr>trace := trace w @ [Exists rp, Sudo (''cat '' @ rp)]\<rparr>)"
  by (simp add: read_remote_def exists_remote_def log_def sudo_def Let_def cat_output_def)

lemma read_remote_Inr:
  assumes "read_remote rp w = (Inr rd, w1)"
  shows "rd = (case remote w rp of None \<Rightarrow> [] | Some d \<Rightarrow> d)
     \<and> w1 = w\<lparr>trace := trace w @ Exists rp # (case remote w rp of None \<Rightarrow> [] | Some d \<Rightarrow> [Sudo (''cat '' @ rp)])\<rparr>"
proof (cases "remote w rp")
  case None
  with assms show ?thesis by (simp add: read_remote_absent)
next
  case (Some d)
  with assms show ?thesis by (simp add: read_remote_present split: if_splits)
qed

lemma render_local_Inr:
  assumes "render_local db_pass lp w = (Inr ld, w2)"
  shows "\<exists>raw. local_files w lp = Some raw \<and> py_format raw (env w2) = Inr ld
     \<and> (if contains ''%(db_pass)s'' raw
         then \<exists>v. db_pass (env w) = Inr v \<and> w2 = w\<lparr>env := (env w)(''db_pass'' \<mapsto> v), trace := trace w @ [DbPass]\<rparr>
         else w2 = w)"
  using assms
  by (auto simp: render_local_def log_def Let_def split: option.splits if_splits sum.splits)

lemma sudo_if_eq:
  "sudo_if v f w =
     (if \<exists>c \<in> set (command_of v f). c \<in> set (failing w)
      then Inl (Abort (hd (command_of v f))) else Inr (),
      w\<lparr>trace := trace w @ map Sudo (command_of v f)\<rparr>)"
  by (auto simp: sudo_if_def command_of_def sudo_def log_def Let_def split: option.splits)

lemma upload_template_eq:
  assumes "local_files w lp = Some raw" and "py_format raw (env w) = Inr ld"
  shows "upload_template lp rp w =
     (if put_ok w then (Inr (), w\<lparr>remote := (remote w)(rp \<mapsto> ld), trace := trace w @ [Upload rp ld]\<rparr>)
      else (Inl (Abort (''put '' @ rp)), w\<lparr>trace := trace w @ [Upload rp ld]\<rparr>))"
  using assms by (simp add: upload_template_def log_def Let_def)

lemma upload_and_reload_put_fails:
  assumes "local_files w lp = Some raw" and "py_format raw (env w) = Inr ld" and "\<not> put_ok w"
  shows "upload_and_reload lp rp owner mode rc w =
     (Inl (Abort (''put '' @ rp)), w\<lparr>trace := trace w @ [Upload rp ld]\<rparr>)"
  using assms by (simp add: upload_and_reload_def upload_template_eq)

lemma command_of_cases: "command_of v f = [] \<or> (\<exists>c. command_of v f = [c])"
  by (simp add: command_of_def split: option.splits)

lemma upload_and_reload_eq:
  assumes "local_files w lp = Some raw" and "py_format raw (env w) = Inr ld" and "put_ok w"
  shows "upload_and_reload lp (field t ''remote_path'')
           (map_of t ''owner'') (map_of t ''mode'') (map_of t ''reload_command'') w =
     (if \<exists>c \<in> set (commands t). c \<in> set (failing w)
      then Inl (Abort (last (issued (failing w) (commands t)))) else Inr PyNone,
      w\<lparr>remote := (remote w)(field t ''remote_path'' \<mapsto> ld),
        trace := trace w @ Upload (field t ''remote_path'') ld
                   # map Sudo (issued (failing w) (commands t))\<rparr>)"
proof -
  let ?co = "command_of (map_of t ''owner'') (\<lambda>v. ''chown '' @ v @ '' '' @ field t ''remote_path'')"
  let ?cm = "command_of (map_of t ''mode'') (\<lambda>v. ''chmod '' @ v @ '' '' @ field t ''remote_path'')"
  let ?cr = "command_of (map_of t ''reload_command'') (\<lambda>v. v)"
  have co: "?co = [] \<or> (\<exists>c. ?co = [c])" by (rule command_of_cases)
  have cm: "?cm = [] \<or> (\<exists>c. ?cm = [c])" by (rule command_of_cases)
  have cr: "?cr = [] \<or> (\<exists>c. ?cr = [c])" by (rule command_of_cases)
  have up: "upload_template lp (field t ''remote_path'') w =
     (Inr (), w\<lparr>remote := (remote w)(field t ''remote_path'' \<mapsto> ld),
                trace := trace w @ [Upload (field t ''remote_path'') ld]\<rparr>)"
    using assms by (simp add: upload_template_eq)
  from co cm cr show ?thesis
    unfolding upload_and_reload_def up sudo_if_eq commands_def
    by (elim disjE exE) simp_all
qed

subsection \<open>The state at the comparison of line 156\<close>

lemma prepare_Inr:
  assumes "prepare tpls db_pass name w = (Inr (t, rd, ld), w2)"
  shows "\<exists>injected lp rp w1. get_templates tpls (env w) = Inr injected \<and> subscript injected name = Inr t
     \<and> map_of t ''local_path'' = Some lp \<and> map_of t ''remote_path'' = Some rp
     \<and> read_remote rp w = (Inr rd, w1) \<and> render_local db_pass lp w1 = (Inr ld, w2)"
  using assms
  by (auto simp: prepare_def subscript_def split: sum.splits option.splits prod.splits)

lemma prepare_facts:
  assumes "prepare tpls db_pass name w = (Inr (t, rd, ld), w2)"
  shows "\<exists>raw. map_of t ''local_path'' \<noteq> None \<and> map_of t ''remote_path'' \<noteq> None
     \<and> local_files w2 (field t ''local_path'') = Some raw
     \<and> py_format raw (env w2) = Inr ld
     \<and> rd = (case remote w (field t ''remote_path'') of None \<Rightarrow> [] | Some d \<Rightarrow> d)
     \<and> remote w2 = remote w \<and> same_host w w2
     \<and> trace w2 = trace w @ Exists (field t ''remote_path'')
           # (case remote w (field t ''remote_path'') of None \<Rightarrow> [] | Some d \<Rightarrow> [Sudo (''cat '' @ field t ''remote_path'')])
           @ (if contains ''%(db_pass)s'' raw then [DbPass] else [])
     \<and> (if contains ''%(db_pass)s'' raw
         then \<exists>v. db_pass (env w) = Inr v \<and> env w2 = (env w)(''db_pass'' \<mapsto> v)
         else env w2 = env w)"
proof -
  from prepare_Inr [OF assms] obtain injected lp rp w1 where
    t: "map_of t ''local_path'' = Some lp" "map_of t ''remote_path'' = Some rp"
    and rr: "read_remote rp w = (Inr rd, w1)" and rl: "render_local db_pass lp w1 = (Inr ld, w2)"
    by blast
  from read_remote_Inr [OF rr] have
    rd: "rd = (case remote w rp of None \<Rightarrow> [] | Some d \<Rightarrow> d)"
    and w1: "w1 = w\<lparr>trace := trace w @ Exists rp # (case remote w rp of None \<Rightarrow> [] | Some d \<Rightarrow> [Sudo (''cat '' @ rp)])\<rparr>"
    by blast+
  from render_local_Inr [OF rl] obtain raw where
    raw: "local_files w1 lp = Some raw" "py_format raw (env w2) = Inr ld"
    and w2: "if contains ''%(db_pass)s'' raw
         then \<exists>v. db_pass (env w1) = Inr v \<and> w2 = w1\<lparr>env := (env w1)(''db_pass'' \<mapsto> v), trace := trace w1 @ [DbPass]\<rparr>
         else w2 = w1"
    by blast
  have f: "field t ''local_path'' = lp" "field t ''remote_path'' = rp"
    using t by (simp_all add: field_def)
  show ?thesis
  proof (cases "contains ''%(db_pass)s'' raw")
    case True
    with w2 obtain v where "db_pass (env w1) = Inr v"
      "w2 = w1\<lparr>env := (env w1)(''db_pass'' \<mapsto> v), trace := trace w1 @ [DbPass]\<rparr>" by auto
    with True raw rd t f show ?thesis
      by (intro exI [of _ raw]) (simp add: w1 same_host_def cong: option.case_cong)
  next
    case False
    with w2 have "w2 = w1" by simp
    with False raw rd t f show ?thesis
      by (intro exI [of _ raw]) (simp add: w1 same_host_def cong: option.case_cong)
  qed
qed

lemma sync_equal:
  assumes "prepare tpls db_pass name w = (Inr (t, rd, ld), w2)" and "clean rd = clean ld"
  shows "upload_template_and_reload tpls db_pass name w = (Inr PyNone, w2)"
  using assms by (simp add: upload_template_and_reload_def)

lemma sync_differ:
  assumes "prepare tpls db_pass name w = (Inr (t, rd, ld), w2)" and "clean rd \<noteq> clean ld"
  shows "upload_template_and_reload tpls db_pass name w =
     (if put_ok w then
        (if \<exists>c \<in> set (commands t). c \<in> set (failing w)
         then Inl (Abort (last (issued (failing w) (commands t)))) else Inr PyNone,
         w2\<lparr>remote := (remote w)(field t ''remote_path'' \<mapsto> ld),
            trace := trace w2 @ Upload (field t ''remote_path'') ld
                       # map Sudo (issued (failing w) (commands t))\<rparr>)
      else (Inl (Abort (''put '' @ field t ''remote_path'')),
            w2\<lparr>trace := trace w2 @ [Upload (field t ''remote_path'') ld]\<rparr>))"
proof -
  from prepare_facts [OF assms(1)] obtain raw where
    raw: "local_files w2 (field t ''local_path'') = Some raw" "py_format raw (env w2) = Inr ld"
    and same: "remote w2 = remote w" "same_host w w2" by blast
  from same have eq: "put_ok w2 = put_ok w" "failing w2 = failing w"
    by (simp_all add: same_host_def)
  show ?thesis
  proof (cases "put_ok w")
    case True
    then have "put_ok w2" using eq by simp
    from upload_and_reload_eq [OF raw this] assms True show ?thesis
      by (simp add: upload_template_and_reload_def eq same)
  next
    case False
    then have "\<not> put_ok w2" using eq by simp
    from upload_and_reload_put_fails [OF raw this] assms False show ?thesis
      by (simp add: upload_template_and_reload_def)
  qed
qed

lemma prepare_events:
  assumes "prepare tpls db_pass name w = (Inr (t, rd, ld), w2)"
  shows "new_events w w2 \<in> set
     [[Exists (field t ''remote_path'')],
      [Exists (field t ''remote_path''), DbPass],
      [Exists (field t ''remote_path''), Sudo (''cat '' @ field t ''remote_path'')],
      [Exists (field t ''remote_path''), Sudo (''cat '' @ field t ''remote_path''), DbPass]]"
proof -
  from prepare_facts [OF assms] obtain raw where
    "trace w2 = trace w @ Exists (field t ''remote_path'')
           # (case remote w (field t ''remote_path'') of None \<Rightarrow> [] | Some d \<Rightarrow> [Sudo (''cat '' @ field t ''remote_path'')])
           @ (if contains ''%(db_pass)s'' raw then [DbPass] else [])" by blast
  then show ?thesis by (simp add: new_events_def split: option.splits)
qed

subsection \<open>Shared facts\<close>

lemma sync_Inr:
  assumes "upload_template_and_reload tpls db_pass name w = (Inr r, w')"
  shows "\<exists>t rd ld w2. prepare tpls db_pass name w = (Inr (t, rd, ld), w2)"
  using assms
  by (auto simp: upload_template_and_reload_def split: prod.splits sum.splits)

lemma issued_all:
  "\<forall>c \<in> set cs. c \<notin> set bad \<Longrightarrow> issued bad cs = cs"
  by (induction cs) auto

lemma issued_append:
  "\<forall>c \<in> set cs. c \<notin> set bad \<Longrightarrow> issued bad (cs @ ds) = cs @ issued bad ds"
  by (induction cs) auto

lemmas model_defs =
  prepare_def read_remote_def render_local_def exists_remote_def sudo_def log_def
  cat_output_def subscript_def py_format_def field_def templates_def example_world_def
  example_env_def undefined_db_pass_def Let_def

lemmas sync_defs =
  upload_template_and_reload_def upload_and_reload_def upload_template_def sudo_if_def
  clean_def strip_def remove_char_def is_space_def

text \<open>
  C2.  When the call reaches the comparison of line 156 with remote content \<open>rd\<close> and
  rendered local content \<open>ld\<close>, it uploads exactly when \<open>clean rd\<close> and \<open>clean ld\<close>
  differ: when they are equal it returns at once, having issued no upload, and when they
  differ the next operation is the upload of \<open>ld\<close> to the remote path.  \<open>clean\<close> deletes
  every line feed and carriage return and then removes a prefix and a suffix of
  whitespace, leaving a string that neither starts nor ends with whitespace.  Remote
  \<^verbatim>\<open>"a\r\nb"\<close> and local \<^verbatim>\<open>"a\nb"\<close> are judged equal; remote \<^verbatim>\<open>"a\nb"\<close> and local
  \<^verbatim>\<open>"a\nb\nc"\<close> are judged different.
\<close>

theorem change_detection:
  assumes "prepare tpls db_pass name w = (Inr (t, rd, ld), w2)"
  shows "(clean rd = clean ld \<longrightarrow>
            upload_template_and_reload tpls db_pass name w = (Inr PyNone, w2)
            \<and> (\<forall>p d. Upload p d \<notin> set (new_events w w2)))
       \<and> (clean rd \<noteq> clean ld \<longrightarrow>
            (\<exists>es. trace (snd (upload_template_and_reload tpls db_pass name w))
                  = trace w2 @ Upload (field t ''remote_path'') ld # es))
       \<and> (\<forall>s. clean s = strip (filter (\<lambda>c. c \<noteq> CHR 0x0A \<and> c \<noteq> CHR 0x0D) s))
       \<and> (\<forall>s. \<exists>pre suf. s = pre @ strip s @ suf \<and> list_all is_space pre \<and> list_all is_space suf)
       \<and> (\<forall>s. strip s = [] \<or> (\<not> is_space (hd (strip s)) \<and> \<not> is_space (last (strip s))))
       \<and> clean [CHR ''a'', CHR 0x0D, CHR 0x0A, CHR ''b''] = clean [CHR ''a'', CHR 0x0A, CHR ''b'']
       \<and> clean [CHR ''a'', CHR 0x0A, CHR ''b'']
           \<noteq> clean [CHR ''a'', CHR 0x0A, CHR ''b'', CHR 0x0A, CHR ''c'']"
proof -
  have a: "clean rd = clean ld \<longrightarrow>
            upload_template_and_reload tpls db_pass name w = (Inr PyNone, w2)
            \<and> (\<forall>p d. Upload p d \<notin> set (new_events w w2))"
    using sync_equal [OF assms] prepare_events [OF assms] by auto
  have b: "clean rd \<noteq> clean ld \<longrightarrow>
            (\<exists>es. trace (snd (upload_template_and_reload tpls db_pass name w))
                  = trace w2 @ Upload (field t ''remote_path'') ld # es)"
    using sync_differ [OF assms] by simp
  have c: "clean [CHR ''a'', CHR 0x0D, CHR 0x0A, CHR ''b''] = clean [CHR ''a'', CHR 0x0A, CHR ''b'']"
    by (simp add: clean_def strip_def remove_char_def is_space_def)
  have d: "clean [CHR ''a'', CHR 0x0A, CHR ''b'']
           \<noteq> clean [CHR ''a'', CHR 0x0A, CHR ''b'', CHR 0x0A, CHR ''c'']"
    by (simp add: clean_def strip_def remove_char_def is_space_def)
  have e: "\<forall>s. clean s = strip (filter (\<lambda>c. c \<noteq> CHR 0x0A \<and> c \<noteq> CHR 0x0D) s)"
    using clean_filter by simp
  have f: "\<forall>s. \<exists>pre suf. s = pre @ strip s @ suf \<and> list_all is_space pre \<and> list_all is_space suf"
    using strip_decompose by simp
  have g: "\<forall>s. strip s = [] \<or> (\<not> is_space (hd (strip s)) \<and> \<not> is_space (last (strip s)))"
    using strip_ends by simp
  show ?thesis
    apply (intro conjI)
    apply (rule a)
    apply (rule b)
    apply (rule e)
    apply (rule f)
    apply (rule g)
    apply (rule c)
    apply (rule d)
    done
qed

theorem change_detection_witness:
  "upload_template_and_reload templates undefined_db_pass ''nginx''
     (example_world (Some [CHR ''a'', CHR 0x0D, CHR 0x0A, CHR ''b'']) [CHR ''a'', CHR 0x0A, CHR ''b''])
   = (Inr PyNone,
      (example_world (Some [CHR ''a'', CHR 0x0D, CHR 0x0A, CHR ''b'']) [CHR ''a'', CHR 0x0A, CHR ''b''])
        \<lparr>trace := [Exists ''/etc/nginx/sites-enabled/ex.org.conf'',
                   Sudo ''cat /etc/nginx/sites-enabled/ex.org.conf'']\<rparr>)"
proof -
  let ?w = "example_world (Some [CHR ''a'', CHR 0x0D, CHR 0x0A, CHR ''b'']) [CHR ''a'', CHR 0x0A, CHR ''b'']"
  have p: "prepare templates undefined_db_pass ''nginx'' ?w =
     (Inr ([(''local_path'', ''deploy/nginx.conf''),
            (''remote_path'', ''/etc/nginx/sites-enabled/ex.org.conf''),
            (''reload_command'', ''service nginx restart'')],
           [CHR ''a'', CHR 0x0D, CHR 0x0A, CHR ''b''], [CHR ''a'', CHR 0x0A, CHR ''b'']),
      ?w\<lparr>trace := [Exists ''/etc/nginx/sites-enabled/ex.org.conf'',
                   Sudo ''cat /etc/nginx/sites-enabled/ex.org.conf'']\<rparr>)"
    by (simp add: model_defs)
  from change_detection [OF p] show ?thesis by simp
qed

text \<open>
  C10.  Whenever the remote content and the rendered local content are the same after
  deleting every line feed and carriage return and stripping outer whitespace, the call
  returns at the comparison: it uploads nothing and the remote files are as before.  The
  contents themselves can differ: remote \<^verbatim>\<open>"ab"\<close> and local \<^verbatim>\<open>"a\nb"\<close> are such a pair.
\<close>

theorem line_breaks_erased:
  assumes "prepare tpls db_pass name w = (Inr (t, rd, ld), w2)"
    and "strip (filter (\<lambda>c. c \<noteq> CHR 0x0A \<and> c \<noteq> CHR 0x0D) rd)
         = strip (filter (\<lambda>c. c \<noteq> CHR 0x0A \<and> c \<noteq> CHR 0x0D) ld)"
  shows "upload_template_and_reload tpls db_pass name w = (Inr PyNone, w2)
       \<and> remote w2 = remote w
       \<and> (\<forall>p d. Upload p d \<notin> set (new_events w w2))
       \<and> clean ''ab'' = clean [CHR ''a'', CHR 0x0A, CHR ''b'']
       \<and> ''ab'' \<noteq> [CHR ''a'', CHR 0x0A, CHR ''b'']"
proof -
  from assms(2) have eq: "clean rd = clean ld" by (simp add: clean_filter)
  have a: "upload_template_and_reload tpls db_pass name w = (Inr PyNone, w2)"
    using sync_equal [OF assms(1) eq] .
  have b: "remote w2 = remote w" using prepare_facts [OF assms(1)] by blast
  have c: "\<forall>p d. Upload p d \<notin> set (new_events w w2)"
    using prepare_events [OF assms(1)] by auto
  have d: "clean ''ab'' = clean [CHR ''a'', CHR 0x0A, CHR ''b'']"
    by (simp add: clean_def strip_def remove_char_def is_space_def)
  from a b c d show ?thesis by simp
qed

theorem line_breaks_erased_witness:
  "upload_template_and_reload templates undefined_db_pass ''nginx''
     (example_world (Some ''ab'') [CHR ''a'', CHR 0x0A, CHR ''b''])
   = (Inr PyNone,
      (example_world (Some ''ab'') [CHR ''a'', CHR 0x0A, CHR ''b''])
        \<lparr>trace := [Exists ''/etc/nginx/sites-enabled/ex.org.conf'',
                   Sudo ''cat /etc/nginx/sites-enabled/ex.org.conf'']\<rparr>)"
proof -
  let ?w = "example_world (Some ''ab'') [CHR ''a'', CHR 0x0A, CHR ''b'']"
  have p: "prepare templates undefined_db_pass ''nginx'' ?w =
     (Inr ([(''local_path'', ''deploy/nginx.conf''),
            (''remote_path'', ''/etc/nginx/sites-enabled/ex.org.conf''),
            (''reload_command'', ''service nginx restart'')],
           ''ab'', [CHR ''a'', CHR 0x0A, CHR ''b'']),
      ?w\<lparr>trace := [Exists ''/etc/nginx/sites-enabled/ex.org.conf'',
                   Sudo ''cat /etc/nginx/sites-enabled/ex.org.conf'']\<rparr>)"
    by (simp add: model_defs)
  have q: "strip (filter (\<lambda>c. c \<noteq> CHR 0x0A \<and> c \<noteq> CHR 0x0D) ''ab'')
         = strip (filter (\<lambda>c. c \<noteq> CHR 0x0A \<and> c \<noteq> CHR 0x0D) [CHR ''a'', CHR 0x0A, CHR ''b''])"
    by (simp add: strip_def is_space_def)
  from line_breaks_erased [OF p q] show ?thesis by simp
qed

text \<open>
  C3, as the code has it.  A call that returns, returns \<^verbatim>\<open>None\<close>, whichever case
  occurred.  The case shows in the operations only: when the contents are judged equal
  nothing follows the comparison; when they differ the upload and the owner, mode and
  reload commands follow; and the call read the remote file with \<^verbatim>\<open>cat\<close> exactly
  when the remote path existed.
\<close>

theorem sync_returns_none:
  assumes "upload_template_and_reload tpls db_pass name w = (Inr r, w')"
  shows "r = PyNone \<and>
     (\<exists>t rd ld w2. prepare tpls db_pass name w = (Inr (t, rd, ld), w2)
        \<and> (clean rd = clean ld \<longrightarrow> w' = w2)
        \<and> (clean rd \<noteq> clean ld \<longrightarrow>
             new_events w2 w' = Upload (field t ''remote_path'') ld # map Sudo (commands t))
        \<and> (remote w (field t ''remote_path'') = None \<longrightarrow>
             new_events w w2 \<in> set [[Exists (field t ''remote_path'')],
                                     [Exists (field t ''remote_path''), DbPass]])
        \<and> (remote w (field t ''remote_path'') \<noteq> None \<longrightarrow>
             new_events w w2 \<in> set
               [[Exists (field t ''remote_path''), Sudo (''cat '' @ field t ''remote_path'')],
                [Exists (field t ''remote_path''), Sudo (''cat '' @ field t ''remote_path''), DbPass]]))"
proof -
  from sync_Inr [OF assms] obtain t rd ld w2 where
    p: "prepare tpls db_pass name w = (Inr (t, rd, ld), w2)" by blast
  from prepare_facts [OF p] obtain raw where
    tr: "trace w2 = trace w @ Exists (field t ''remote_path'')
           # (case remote w (field t ''remote_path'') of None \<Rightarrow> [] | Some d \<Rightarrow> [Sudo (''cat '' @ field t ''remote_path'')])
           @ (if contains ''%(db_pass)s'' raw then [DbPass] else [])" by blast
  have e1: "remote w (field t ''remote_path'') = None \<longrightarrow>
             new_events w w2 \<in> set [[Exists (field t ''remote_path'')],
                                     [Exists (field t ''remote_path''), DbPass]]"
    using tr by (simp add: new_events_def)
  have e2: "remote w (field t ''remote_path'') \<noteq> None \<longrightarrow>
             new_events w w2 \<in> set
               [[Exists (field t ''remote_path''), Sudo (''cat '' @ field t ''remote_path'')],
                [Exists (field t ''remote_path''), Sudo (''cat '' @ field t ''remote_path''), DbPass]]"
    using tr by (auto simp: new_events_def)
  have r: "r = PyNone"
    and f1: "clean rd = clean ld \<longrightarrow> w' = w2"
    and f2: "clean rd \<noteq> clean ld \<longrightarrow>
             new_events w2 w' = Upload (field t ''remote_path'') ld # map Sudo (commands t)"
  proof -
    show "r = PyNone"
    proof (cases "clean rd = clean ld")
      case True
      from sync_equal [OF p True] assms show ?thesis by simp
    next
      case False
      from sync_differ [OF p False] assms show ?thesis by (simp split: if_splits)
    qed
    show "clean rd = clean ld \<longrightarrow> w' = w2"
    proof
      assume "clean rd = clean ld"
      from sync_equal [OF p this] assms show "w' = w2" by simp
    qed
    show "clean rd \<noteq> clean ld \<longrightarrow>
             new_events w2 w' = Upload (field t ''remote_path'') ld # map Sudo (commands t)"
    proof
      assume d: "clean rd \<noteq> clean ld"
      from sync_differ [OF p d] assms
      have ok: "\<not> (\<exists>c \<in> set (commands t). c \<in> set (failing w))"
        and w': "w' = w2\<lparr>remote := (remote w)(field t ''remote_path'' \<mapsto> ld),
              trace := trace w2 @ Upload (field t ''remote_path'') ld
                         # map Sudo (issued (failing w) (commands t))\<rparr>"
        by (simp_all split: if_splits)
      from ok have "issued (failing w) (commands t) = commands t"
        by (intro issued_all) blast
      with w' show "new_events w2 w' = Upload (field t ''remote_path'') ld # map Sudo (commands t)"
        by (simp add: new_events_def)
    qed
  qed
  show ?thesis
    apply (rule conjI)
     apply (rule r)
    apply (rule exI [of _ t])
    apply (rule exI [of _ rd])
    apply (rule exI [of _ ld])
    apply (rule exI [of _ w2])
    apply (intro conjI)
        apply (rule p)
       apply (rule f1)
      apply (rule f2)
     apply (rule e1)
    apply (rule e2)
    done
qed

theorem sync_returns_none_witness:
  "upload_template_and_reload templates undefined_db_pass ''nginx'' (example_world None ''new'')
     = (Inr PyNone, first_upload)
   \<and> (\<exists>t rd ld w2.
        prepare templates undefined_db_pass ''nginx'' (example_world None ''new'')
          = (Inr (t, rd, ld), w2)
        \<and> (clean rd = clean ld \<longrightarrow> first_upload = w2)
        \<and> (clean rd \<noteq> clean ld \<longrightarrow>
             new_events w2 first_upload = Upload (field t ''remote_path'') ld # map Sudo (commands t))
        \<and> (remote (example_world None ''new'') (field t ''remote_path'') = None \<longrightarrow>
             new_events (example_world None ''new'') w2
               \<in> set [[Exists (field t ''remote_path'')],
                       [Exists (field t ''remote_path''), DbPass]])
        \<and> (remote (example_world None ''new'') (field t ''remote_path'') \<noteq> None \<longrightarrow>
             new_events (example_world None ''new'') w2 \<in> set
               [[Exists (field t ''remote_path''), Sudo (''cat '' @ field t ''remote_path'')],
                [Exists (field t ''remote_path''), Sudo (''cat '' @ field t ''remote_path''), DbPass]]))"
proof -
  have s: "upload_template_and_reload templates undefined_db_pass ''nginx'' (example_world None ''new'')
     = (Inr PyNone, first_upload)"
    by (simp add: first_upload_def sync_defs model_defs)
  from sync_returns_none [OF s] have
    "\<exists>t rd ld w2.
        prepare templates undefined_db_pass ''nginx'' (example_world None ''new'')
          = (Inr (t, rd, ld), w2)
        \<and> (clean rd = clean ld \<longrightarrow> first_upload = w2)
        \<and> (clean rd \<noteq> clean ld \<longrightarrow>
             new_events w2 first_upload = Upload (field t ''remote_path'') ld # map Sudo (commands t))
        \<and> (remote (example_world None ''new'') (field t ''remote_path'') = None \<longrightarrow>
             new_events (example_world None ''new'') w2
               \<in> set [[Exists (field t ''remote_path'')],
                       [Exists (field t ''remote_path''), DbPass]])
        \<and> (remote (example_world None ''new'') (field t ''remote_path'') \<noteq> None \<longrightarrow>
             new_events (example_world None ''new'') w2 \<in> set
               [[Exists (field t ''remote_path''), Sudo (''cat '' @ field t ''remote_path'')],
                [Exists (field t ''remote_path''), Sudo (''cat '' @ field t ''remote_path''), DbPass]])"
    by (rule conjunct2)
  with s show ?thesis by (rule conjI)
qed

theorem sync_result_counterexample:
  "fst (upload_template_and_reload templates undefined_db_pass ''nginx''
          (example_world (Some ''old'') ''new''))
   = fst (upload_template_and_reload templates undefined_db_pass ''nginx''
          (example_world None ''new''))
   \<and> fst (upload_template_and_reload templates undefined_db_pass ''nginx''
          (example_world None ''new''))
   = fst (upload_template_and_reload templates undefined_db_pass ''nginx''
          (example_world (Some ''new'') ''new''))
   \<and> Upload ''/etc/nginx/sites-enabled/ex.org.conf'' ''new''
       \<in> set (trace (snd (upload_template_and_reload templates undefined_db_pass ''nginx''
          (example_world (Some ''old'') ''new''))))
   \<and> Upload ''/etc/nginx/sites-enabled/ex.org.conf'' ''new''
       \<in> set (trace (snd (upload_template_and_reload templates undefined_db_pass ''nginx''
          (example_world None ''new''))))
   \<and> remote (example_world (Some ''old'') ''new'') ''/etc/nginx/sites-enabled/ex.org.conf'' \<noteq> None
   \<and> remote (example_world None ''new'') ''/etc/nginx/sites-enabled/ex.org.conf'' = None"
  by (simp add: sync_defs model_defs)

text \<open>
  C4.  For a resolved template whose reload command \<open>rc\<close> is set and not empty: when
  the contents are judged equal the call returns at the comparison, and its operations
  are the existence test, the read of the remote file and \<^verbatim>\<open>db_pass\<close> only, so the
  reload step is not run; when they are judged different and the upload and the owner
  and mode commands succeed, the operations after the comparison are the upload, the
  owner and mode commands and then the reload command, run once, as the last operation.
\<close>

theorem reload_firing:
  assumes "prepare tpls db_pass name w = (Inr (t, rd, ld), w2)"
    and "map_of t ''reload_command'' = Some rc" and "rc \<noteq> []"
  shows "(clean rd = clean ld \<longrightarrow>
            upload_template_and_reload tpls db_pass name w = (Inr PyNone, w2)
            \<and> new_events w w2 \<in> set
                 [[Exists (field t ''remote_path'')],
                  [Exists (field t ''remote_path''), DbPass],
                  [Exists (field t ''remote_path''), Sudo (''cat '' @ field t ''remote_path'')],
                  [Exists (field t ''remote_path''), Sudo (''cat '' @ field t ''remote_path''), DbPass]])
       \<and> (clean rd \<noteq> clean ld \<and> put_ok w
            \<and> (\<forall>c \<in> set (command_of (map_of t ''owner'') (\<lambda>v. ''chown '' @ v @ '' '' @ field t ''remote_path'')
                          @ command_of (map_of t ''mode'') (\<lambda>v. ''chmod '' @ v @ '' '' @ field t ''remote_path'')).
                  c \<notin> set (failing w)) \<longrightarrow>
            new_events w2 (snd (upload_template_and_reload tpls db_pass name w))
              = Upload (field t ''remote_path'') ld
                # map Sudo (command_of (map_of t ''owner'') (\<lambda>v. ''chown '' @ v @ '' '' @ field t ''remote_path'')
                            @ command_of (map_of t ''mode'') (\<lambda>v. ''chmod '' @ v @ '' '' @ field t ''remote_path''))
                @ [Sudo rc])"
proof (intro conjI impI)
  assume "clean rd = clean ld"
  then show "upload_template_and_reload tpls db_pass name w = (Inr PyNone, w2)"
    by (rule sync_equal [OF assms(1)])
next
  show "new_events w w2 \<in> set
                 [[Exists (field t ''remote_path'')],
                  [Exists (field t ''remote_path''), DbPass],
                  [Exists (field t ''remote_path''), Sudo (''cat '' @ field t ''remote_path'')],
                  [Exists (field t ''remote_path''), Sudo (''cat '' @ field t ''remote_path''), DbPass]]"
    by (rule prepare_events [OF assms(1)])
next
  let ?cs = "command_of (map_of t ''owner'') (\<lambda>v. ''chown '' @ v @ '' '' @ field t ''remote_path'')
             @ command_of (map_of t ''mode'') (\<lambda>v. ''chmod '' @ v @ '' '' @ field t ''remote_path'')"
  assume a: "clean rd \<noteq> clean ld \<and> put_ok w \<and> (\<forall>c \<in> set ?cs. c \<notin> set (failing w))"
  have c: "commands t = ?cs @ [rc]"
    using assms(2,3) by (simp add: commands_def command_of_def)
  from a have "issued (failing w) (?cs @ [rc]) = ?cs @ issued (failing w) [rc]"
    by (intro issued_append) blast
  then have i: "issued (failing w) (commands t) = ?cs @ [rc]"
    using c by simp
  from a sync_differ [OF assms(1)]
  have "trace (snd (upload_template_and_reload tpls db_pass name w))
        = trace w2 @ Upload (field t ''remote_path'') ld # map Sudo (issued (failing w) (commands t))"
    by simp
  then show "new_events w2 (snd (upload_template_and_reload tpls db_pass name w))
              = Upload (field t ''remote_path'') ld # map Sudo ?cs @ [Sudo rc]"
    unfolding i by (simp add: new_events_def)
qed

theorem reload_firing_witness:
  "new_events
     ((example_world (Some ''old'') ''new'')
        \<lparr>trace := [Exists ''/etc/nginx/sites-enabled/ex.org.conf'',
                   Sudo ''cat /etc/nginx/sites-enabled/ex.org.conf'']\<rparr>)
     (snd (upload_template_and_reload templates undefined_db_pass ''nginx''
             (example_world (Some ''old'') ''new'')))
   = [Upload ''/etc/nginx/sites-enabled/ex.org.conf'' ''new'', Sudo ''service nginx restart'']"
proof -
  let ?w = "example_world (Some ''old'') ''new''"
  have p: "prepare templates undefined_db_pass ''nginx'' ?w =
     (Inr ([(''local_path'', ''deploy/nginx.conf''),
            (''remote_path'', ''/etc/nginx/sites-enabled/ex.org.conf''),
            (''reload_command'', ''service nginx restart'')], ''old'', ''new''),
      ?w\<lparr>trace := [Exists ''/etc/nginx/sites-enabled/ex.org.conf'',
                   Sudo ''cat /etc/nginx/sites-enabled/ex.org.conf'']\<rparr>)"
    by (simp add: model_defs)
  have d: "clean ''old'' \<noteq> clean ''new''"
    by (simp add: clean_def strip_def remove_char_def is_space_def)
  have ok: "put_ok ?w" "failing ?w = []" by (simp_all add: example_world_def)
  from reload_firing [OF p, of "''service nginx restart''"] d ok show ?thesis
    by (simp add: field_def command_of_def)
qed

text \<open>
  C7, as the code has it.  When the remote path does not exist the call does not read
  it and compares the rendered local content \<open>ld\<close> with the empty string.  It uploads
  exactly when \<open>clean ld\<close> is not empty: then the upload of \<open>ld\<close> is the next operation
  and, when the transfer succeeds, the remote path holds \<open>ld\<close>; when \<open>clean ld\<close> is
  empty the call returns at the comparison and the remote path is still absent.  A call
  that returns, returns \<^verbatim>\<open>None\<close>.
\<close>

theorem first_deploy:
  assumes "prepare tpls db_pass name w = (Inr (t, rd, ld), w2)"
    and "remote w (field t ''remote_path'') = None"
  shows "rd = []
       \<and> new_events w w2 \<in> set [[Exists (field t ''remote_path'')],
                                 [Exists (field t ''remote_path''), DbPass]]
       \<and> (clean ld = [] \<longrightarrow>
            upload_template_and_reload tpls db_pass name w = (Inr PyNone, w2)
            \<and> remote w2 (field t ''remote_path'') = None)
       \<and> (clean ld \<noteq> [] \<longrightarrow>
            (\<exists>es. new_events w2 (snd (upload_template_and_reload tpls db_pass name w))
                    = Upload (field t ''remote_path'') ld # es)
            \<and> (put_ok w \<longrightarrow>
                  remote (snd (upload_template_and_reload tpls db_pass name w))
                    (field t ''remote_path'') = Some ld))
       \<and> (\<forall>r. fst (upload_template_and_reload tpls db_pass name w) = Inr r \<longrightarrow> r = PyNone)"
proof -
  from prepare_facts [OF assms(1)] obtain raw where
    rd: "rd = (case remote w (field t ''remote_path'') of None \<Rightarrow> [] | Some d \<Rightarrow> d)"
    and rem: "remote w2 = remote w"
    and tr: "trace w2 = trace w @ Exists (field t ''remote_path'')
           # (case remote w (field t ''remote_path'') of None \<Rightarrow> [] | Some d \<Rightarrow> [Sudo (''cat '' @ field t ''remote_path'')])
           @ (if contains ''%(db_pass)s'' raw then [DbPass] else [])" by blast
  have c0: "clean [] = []" by (simp add: clean_def strip_def remove_char_def)
  have a: "rd = []" using rd assms(2) by simp
  have b: "new_events w w2 \<in> set [[Exists (field t ''remote_path'')],
                                 [Exists (field t ''remote_path''), DbPass]]"
    using tr assms(2) by (simp add: new_events_def)
  have c: "clean ld = [] \<longrightarrow>
            upload_template_and_reload tpls db_pass name w = (Inr PyNone, w2)
            \<and> remote w2 (field t ''remote_path'') = None"
    using sync_equal [OF assms(1)] a c0 rem assms(2) by simp
  have d: "clean ld \<noteq> [] \<longrightarrow>
            (\<exists>es. new_events w2 (snd (upload_template_and_reload tpls db_pass name w))
                    = Upload (field t ''remote_path'') ld # es)
            \<and> (put_ok w \<longrightarrow>
                  remote (snd (upload_template_and_reload tpls db_pass name w))
                    (field t ''remote_path'') = Some ld)"
  proof
    assume "clean ld \<noteq> []"
    then have "clean rd \<noteq> clean ld" using a c0 by simp
    from sync_differ [OF assms(1) this]
    show "(\<exists>es. new_events w2 (snd (upload_template_and_reload tpls db_pass name w))
                    = Upload (field t ''remote_path'') ld # es)
            \<and> (put_ok w \<longrightarrow>
                  remote (snd (upload_template_and_reload tpls db_pass name w))
                    (field t ''remote_path'') = Some ld)"
      by (simp add: new_events_def)
  qed
  have e: "\<forall>r. fst (upload_template_and_reload tpls db_pass name w) = Inr r \<longrightarrow> r = PyNone"
  proof (cases "clean rd = clean ld")
    case True
    from sync_equal [OF assms(1) True] show ?thesis by simp
  next
    case False
    from sync_differ [OF assms(1) False] show ?thesis by (simp split: if_splits)
  qed
  show ?thesis
    apply (intro conjI)
        apply (rule a)
       apply (rule b)
      apply (rule c)
     apply (rule d)
    apply (rule e)
    done
qed

theorem first_deploy_witness:
  "remote (snd (upload_template_and_reload templates undefined_db_pass ''nginx''
                  (example_world None ''new'')))
     ''/etc/nginx/sites-enabled/ex.org.conf'' = Some ''new''"
proof -
  let ?w = "example_world None ''new''"
  have p: "prepare templates undefined_db_pass ''nginx'' ?w =
     (Inr ([(''local_path'', ''deploy/nginx.conf''),
            (''remote_path'', ''/etc/nginx/sites-enabled/ex.org.conf''),
            (''reload_command'', ''service nginx restart'')], [], ''new''),
      ?w\<lparr>trace := [Exists ''/etc/nginx/sites-enabled/ex.org.conf'']\<rparr>)"
    by (simp add: model_defs)
  have q: "remote ?w (field [(''local_path'', ''deploy/nginx.conf''),
            (''remote_path'', ''/etc/nginx/sites-enabled/ex.org.conf''),
            (''reload_command'', ''service nginx restart'')] ''remote_path'') = None"
    by (simp add: example_world_def field_def)
  have d: "clean ''new'' \<noteq> []"
    by (simp add: clean_def strip_def remove_char_def is_space_def)
  have ok: "put_ok ?w" by (simp add: example_world_def)
  from first_deploy [OF p q] d ok show ?thesis
    by (simp add: field_def)
qed

theorem first_deploy_counterexample:
  "remote (example_world None []) ''/etc/nginx/sites-enabled/ex.org.conf'' = None
   \<and> upload_template_and_reload templates undefined_db_pass ''nginx'' (example_world None [])
     = (Inr PyNone,
        (example_world None [])\<lparr>trace := [Exists ''/etc/nginx/sites-enabled/ex.org.conf'']\<rparr>)
   \<and> remote (snd (upload_template_and_reload templates undefined_db_pass ''nginx''
                    (example_world None [])))
       ''/etc/nginx/sites-enabled/ex.org.conf'' = None"
  by (simp add: sync_defs model_defs)

text \<open>
  C8.  \<open>commands t\<close> lists, in the order of the code, \<^verbatim>\<open>chown owner path\<close> when the
  owner is set and not empty, \<^verbatim>\<open>chmod mode path\<close> when the mode is set and not empty,
  and the reload command.  When the contents are judged equal the call returns at the
  comparison and its operations are the existence test, the read and \<^verbatim>\<open>db_pass\<close>
  only.  When they differ and the transfer fails, the attempted upload is the last
  operation: neither command is sent.  When they differ and the transfer succeeds, the
  commands are sent after the upload, in order, up to the first that fails, and the
  remote path holds the rendered content whether or not one of them fails.
\<close>

theorem owner_and_mode:
  assumes "prepare tpls db_pass name w = (Inr (t, rd, ld), w2)"
  shows "(clean rd = clean ld \<longrightarrow>
            upload_template_and_reload tpls db_pass name w = (Inr PyNone, w2)
            \<and> new_events w w2 \<in> set
                 [[Exists (field t ''remote_path'')],
                  [Exists (field t ''remote_path''), DbPass],
                  [Exists (field t ''remote_path''), Sudo (''cat '' @ field t ''remote_path'')],
                  [Exists (field t ''remote_path''), Sudo (''cat '' @ field t ''remote_path''), DbPass]])
       \<and> (clean rd \<noteq> clean ld \<and> \<not> put_ok w \<longrightarrow>
            new_events w2 (snd (upload_template_and_reload tpls db_pass name w))
              = [Upload (field t ''remote_path'') ld])
       \<and> (clean rd \<noteq> clean ld \<and> put_ok w \<longrightarrow>
            new_events w2 (snd (upload_template_and_reload tpls db_pass name w))
              = Upload (field t ''remote_path'') ld # map Sudo (issued (failing w) (commands t))
            \<and> remote (snd (upload_template_and_reload tpls db_pass name w))
                 (field t ''remote_path'') = Some ld)
       \<and> commands t =
            command_of (map_of t ''owner'') (\<lambda>v. ''chown '' @ v @ '' '' @ field t ''remote_path'')
            @ command_of (map_of t ''mode'') (\<lambda>v. ''chmod '' @ v @ '' '' @ field t ''remote_path'')
            @ command_of (map_of t ''reload_command'') (\<lambda>v. v)"
proof (intro conjI impI)
  assume "clean rd = clean ld"
  then show "upload_template_and_reload tpls db_pass name w = (Inr PyNone, w2)"
    by (rule sync_equal [OF assms])
next
  show "new_events w w2 \<in> set
                 [[Exists (field t ''remote_path'')],
                  [Exists (field t ''remote_path''), DbPass],
                  [Exists (field t ''remote_path''), Sudo (''cat '' @ field t ''remote_path'')],
                  [Exists (field t ''remote_path''), Sudo (''cat '' @ field t ''remote_path''), DbPass]]"
    by (rule prepare_events [OF assms])
next
  assume a: "clean rd \<noteq> clean ld \<and> \<not> put_ok w"
  with sync_differ [OF assms]
  show "new_events w2 (snd (upload_template_and_reload tpls db_pass name w))
              = [Upload (field t ''remote_path'') ld]"
    by (simp add: new_events_def)
next
  assume a: "clean rd \<noteq> clean ld \<and> put_ok w"
  with sync_differ [OF assms]
  show "new_events w2 (snd (upload_template_and_reload tpls db_pass name w))
              = Upload (field t ''remote_path'') ld # map Sudo (issued (failing w) (commands t))"
    by (simp add: new_events_def)
next
  assume a: "clean rd \<noteq> clean ld \<and> put_ok w"
  with sync_differ [OF assms]
  show "remote (snd (upload_template_and_reload tpls db_pass name w))
                 (field t ''remote_path'') = Some ld"
    by simp
next
  show "commands t =
            command_of (map_of t ''owner'') (\<lambda>v. ''chown '' @ v @ '' '' @ field t ''remote_path'')
            @ command_of (map_of t ''mode'') (\<lambda>v. ''chmod '' @ v @ '' '' @ field t ''remote_path'')
            @ command_of (map_of t ''reload_command'') (\<lambda>v. v)"
    by (rule commands_def)
qed

theorem owner_and_mode_witness:
  "new_events
     ((owned_world [''chmod 640 /home/u/blog/local_settings.py''] True)
        \<lparr>env := example_env(''db_pass'' \<mapsto> ''s3cret''),
         trace := [Exists ''/home/u/blog/local_settings.py'', DbPass]\<rparr>)
     (snd (upload_template_and_reload owned_templates fixed_db_pass ''settings''
             (owned_world [''chmod 640 /home/u/blog/local_settings.py''] True)))
   = [Upload ''/home/u/blog/local_settings.py'' ''PASSWORD = s3cret'',
      Sudo ''chown www-data /home/u/blog/local_settings.py'',
      Sudo ''chmod 640 /home/u/blog/local_settings.py'']
   \<and> remote (snd (upload_template_and_reload owned_templates fixed_db_pass ''settings''
                   (owned_world [''chmod 640 /home/u/blog/local_settings.py''] True)))
       ''/home/u/blog/local_settings.py'' = Some ''PASSWORD = s3cret''"
proof -
  let ?w = "owned_world [''chmod 640 /home/u/blog/local_settings.py''] True"
  let ?t = "[(''local_path'', ''deploy/local_settings.py''),
             (''remote_path'', ''/home/u/blog/local_settings.py''),
             (''owner'', ''www-data''), (''mode'', ''640''),
             (''reload_command'', ''supervisorctl reload'')]"
  have p: "prepare owned_templates fixed_db_pass ''settings'' ?w =
     (Inr (?t, [], ''PASSWORD = s3cret''),
      ?w\<lparr>env := example_env(''db_pass'' \<mapsto> ''s3cret''),
         trace := [Exists ''/home/u/blog/local_settings.py'', DbPass]\<rparr>)"
    by (simp add: model_defs owned_world_def owned_templates_def fixed_db_pass_def)
  have d: "clean [] \<noteq> clean ''PASSWORD = s3cret''"
    by (simp add: clean_def strip_def remove_char_def is_space_def)
  have ok: "put_ok ?w" "failing ?w = [''chmod 640 /home/u/blog/local_settings.py'']"
    by (simp_all add: owned_world_def)
  have f: "field ?t ''remote_path'' = ''/home/u/blog/local_settings.py''"
    by (simp add: field_def)
  have c: "issued [''chmod 640 /home/u/blog/local_settings.py''] (commands ?t)
     = [''chown www-data /home/u/blog/local_settings.py'', ''chmod 640 /home/u/blog/local_settings.py'']"
    by (simp add: commands_def command_of_def field_def)
  note third = owner_and_mode [OF p, THEN conjunct2, THEN conjunct2, THEN conjunct1]
  from third d ok show ?thesis
    by (simp add: f c)
qed

lemma prepare_intro:
  assumes "get_templates tpls (env w) = Inr injected" and "subscript injected name = Inr t"
    and "map_of t ''local_path'' = Some lp" and "map_of t ''remote_path'' = Some rp"
    and "read_remote rp w = (Inr rd, wr)" and "render_local db_pass lp wr = (Inr ld, w2)"
  shows "prepare tpls db_pass name w = (Inr (t, rd, ld), w2)"
  using assms by (simp add: prepare_def subscript_def)

lemma read_remote_ok:
  assumes "''cat '' @ rp \<notin> set (failing w)"
  shows "\<exists>wr. read_remote rp w = (Inr (case remote w rp of None \<Rightarrow> [] | Some d \<Rightarrow> d), wr)
     \<and> env wr = env w \<and> local_files wr = local_files w"
proof (cases "remote w rp")
  case None
  then show ?thesis by (simp add: read_remote_absent)
next
  case (Some d)
  with assms show ?thesis by (simp add: read_remote_present)
qed

lemma render_local_again:
  assumes "local_files w lp = Some raw" and "py_format raw (env w) = Inr ld"
    and "contains ''%(db_pass)s'' raw \<longrightarrow> (\<exists>v. db_pass (env w) = Inr v \<and> env w ''db_pass'' = Some v)"
  shows "\<exists>w2. render_local db_pass lp w = (Inr ld, w2)"
proof (cases "contains ''%(db_pass)s'' raw")
  case True
  with assms(3) obtain v where v: "db_pass (env w) = Inr v" "env w ''db_pass'' = Some v" by blast
  then have "(env w)(''db_pass'' \<mapsto> v) = env w" by (simp add: fun_upd_idem)
  with assms(1,2) True v show ?thesis by (simp add: render_local_def log_def)
next
  case False
  with assms(1,2) show ?thesis by (simp add: render_local_def)
qed

text \<open>
  C1.  Let a first call return, leaving the state \<open>w1\<close>, and let the second call start
  in \<open>w1\<close>: local files, remote files and environment are as the first call left them.
  Let the registry resolve in \<open>w1\<close> as it did before, let \<^verbatim>\<open>db_pass\<close> return in \<open>w1\<close>
  what it returned before, and let reading remote files with \<^verbatim>\<open>cat\<close> not fail.  Then
  the second call returns \<^verbatim>\<open>None\<close> at the comparison of line 156, the remote files are
  unchanged, and its operations are the existence test of the remote path, possibly the
  read of the remote file and possibly \<^verbatim>\<open>db_pass\<close>: no upload, no owner or mode
  command and no reload.
\<close>

theorem sync_idempotent:
  assumes first: "upload_template_and_reload tpls db_pass name w = (Inr r, w1)"
    and resolved: "get_templates tpls (env w1) = get_templates tpls (env w)"
    and secret: "db_pass (env w1) = db_pass (env w)"
    and reads: "\<forall>p. ''cat '' @ p \<notin> set (failing w)"
  shows "\<exists>w2 rp. upload_template_and_reload tpls db_pass name w1 = (Inr PyNone, w2)
     \<and> remote w2 = remote w1
     \<and> new_events w1 w2 \<in> set
          [[Exists rp], [Exists rp, DbPass],
           [Exists rp, Sudo (''cat '' @ rp)], [Exists rp, Sudo (''cat '' @ rp), DbPass]]"
proof -
  from sync_Inr [OF first] obtain t rd ld wp where
    p: "prepare tpls db_pass name w = (Inr (t, rd, ld), wp)" by blast
  from prepare_Inr [OF p] obtain injected lp rp wr where
    gt: "get_templates tpls (env w) = Inr injected" and sub: "subscript injected name = Inr t"
    and lp: "map_of t ''local_path'' = Some lp" and rp: "map_of t ''remote_path'' = Some rp"
    by blast
  have f: "field t ''local_path'' = lp" "field t ''remote_path'' = rp"
    using lp rp by (simp_all add: field_def)
  from prepare_facts [OF p] f obtain raw where
    raw: "local_files wp lp = Some raw" and fmt: "py_format raw (env wp) = Inr ld"
    and rd: "rd = (case remote w rp of None \<Rightarrow> [] | Some d \<Rightarrow> d)"
    and rem: "remote wp = remote w" and same: "same_host w wp"
    and ev: "if contains ''%(db_pass)s'' raw
         then \<exists>v. db_pass (env w) = Inr v \<and> env wp = (env w)(''db_pass'' \<mapsto> v)
         else env wp = env w"
    by auto
  have w1: "env w1 = env wp \<and> local_files w1 = local_files w \<and> failing w1 = failing w
     \<and> clean (case remote w1 rp of None \<Rightarrow> [] | Some d \<Rightarrow> d) = clean ld"
  proof (cases "clean rd = clean ld")
    case True
    from sync_equal [OF p True] first have "w1 = wp" by simp
    with True rd rem same show ?thesis by (simp add: same_host_def)
  next
    case False
    from sync_differ [OF p False] first
    have "w1 = wp\<lparr>remote := (remote w)(field t ''remote_path'' \<mapsto> ld),
            trace := trace wp @ Upload (field t ''remote_path'') ld
                       # map Sudo (issued (failing w) (commands t))\<rparr>"
      by (simp split: if_splits)
    with same f show ?thesis by (simp add: same_host_def)
  qed
  from reads w1 have "''cat '' @ rp \<notin> set (failing w1)" by simp
  from read_remote_ok [OF this] obtain wr1 where
    rr: "read_remote rp w1 = (Inr (case remote w1 rp of None \<Rightarrow> [] | Some d \<Rightarrow> d), wr1)"
    and wr1: "env wr1 = env w1" "local_files wr1 = local_files w1" by blast
  have l: "local_files wr1 lp = Some raw"
    using raw same w1 wr1 by (simp add: same_host_def)
  have m: "py_format raw (env wr1) = Inr ld" using fmt w1 wr1 by simp
  have s: "contains ''%(db_pass)s'' raw \<longrightarrow>
             (\<exists>v. db_pass (env wr1) = Inr v \<and> env wr1 ''db_pass'' = Some v)"
  proof
    assume "contains ''%(db_pass)s'' raw"
    with ev obtain v where "db_pass (env w) = Inr v" "env wp = (env w)(''db_pass'' \<mapsto> v)"
      by auto
    with secret w1 wr1 show "\<exists>v. db_pass (env wr1) = Inr v \<and> env wr1 ''db_pass'' = Some v"
      by simp
  qed
  from render_local_again [where db_pass = db_pass, OF l m s] obtain w2 where
    rl: "render_local db_pass lp wr1 = (Inr ld, w2)" by blast
  from gt resolved have gt1: "get_templates tpls (env w1) = Inr injected" by simp
  note p1 = prepare_intro [OF gt1 sub lp rp rr rl]
  from w1 have eq: "clean (case remote w1 rp of None \<Rightarrow> [] | Some d \<Rightarrow> d) = clean ld" by simp
  have a: "upload_template_and_reload tpls db_pass name w1 = (Inr PyNone, w2)"
    by (rule sync_equal [OF p1 eq])
  have b: "remote w2 = remote w1" using prepare_facts [OF p1] by blast
  have c: "new_events w1 w2 \<in> set
          [[Exists rp], [Exists rp, DbPass],
           [Exists rp, Sudo (''cat '' @ rp)], [Exists rp, Sudo (''cat '' @ rp), DbPass]]"
    using prepare_events [OF p1] unfolding f .
  show ?thesis
    apply (rule exI [of _ w2])
    apply (rule exI [of _ rp])
    apply (intro conjI)
      apply (rule a)
     apply (rule b)
    apply (rule c)
    done
qed

theorem sync_idempotent_witness:
  "\<exists>w2 rp.
     upload_template_and_reload owned_templates fixed_db_pass ''settings''
       (snd (upload_template_and_reload owned_templates fixed_db_pass ''settings''
               (owned_world [] True)))
     = (Inr PyNone, w2)
     \<and> remote w2 = remote (snd (upload_template_and_reload owned_templates fixed_db_pass
                                  ''settings'' (owned_world [] True)))
     \<and> new_events (snd (upload_template_and_reload owned_templates fixed_db_pass ''settings''
                          (owned_world [] True))) w2 \<in> set
          [[Exists rp], [Exists rp, DbPass],
           [Exists rp, Sudo (''cat '' @ rp)], [Exists rp, Sudo (''cat '' @ rp), DbPass]]"
proof -
  let ?w = "owned_world [] True"
  let ?w1 = "snd (upload_template_and_reload owned_templates fixed_db_pass ''settings'' ?w)"
  note defs = sync_defs model_defs owned_world_def owned_templates_def fixed_db_pass_def
  have "fst (upload_template_and_reload owned_templates fixed_db_pass ''settings'' ?w) = Inr PyNone"
    by (simp add: defs)
  then have s: "upload_template_and_reload owned_templates fixed_db_pass ''settings'' ?w
     = (Inr PyNone, ?w1)"
    by (simp add: prod_eq_iff)
  have e: "env ?w1 = example_env(''db_pass'' \<mapsto> ''s3cret'')"
    by (simp add: defs)
  have r: "get_templates owned_templates (env ?w1) = get_templates owned_templates (env ?w)"
    unfolding e by (simp add: owned_templates_def owned_world_def example_env_def py_format_def)
  have d: "fixed_db_pass (env ?w1) = fixed_db_pass (env ?w)"
    by (simp add: fixed_db_pass_def)
  have c: "\<forall>p. ''cat '' @ p \<notin> set (failing ?w)"
    by (simp add: owned_world_def)
  show ?thesis by (rule sync_idempotent [OF s r d c])
qed

text \<open>
  C5, which the code does not meet.  Line 152 tests the raw local content for the marker
  \<^verbatim>\<open>%(db_pass)s\<close> and line 153 then evaluates \<^verbatim>\<open>db_pass()\<close>, a name the file defines
  nowhere.  With the registry of the file and a local nginx template that holds the
  marker, the call raises \<^verbatim>\<open>NameError\<close> after the existence test of the remote path:
  nothing is rendered or uploaded, and no secret is computed or stored in the
  environment, neither by this call nor by a later one from the state it leaves.
\<close>

theorem secret_never_derived:
  "contains ''%(db_pass)s'' ''password = %(db_pass)s''
   \<and> upload_template_and_reload templates undefined_db_pass ''nginx''
       (example_world None ''password = %(db_pass)s'')
     = (Inl (NameError ''db_pass''),
        (example_world None ''password = %(db_pass)s'')
          \<lparr>trace := [Exists ''/etc/nginx/sites-enabled/ex.org.conf'']\<rparr>)
   \<and> env (snd (upload_template_and_reload templates undefined_db_pass ''nginx''
                 (example_world None ''password = %(db_pass)s''))) ''db_pass'' = None
   \<and> remote (snd (upload_template_and_reload templates undefined_db_pass ''nginx''
                    (example_world None ''password = %(db_pass)s'')))
       ''/etc/nginx/sites-enabled/ex.org.conf'' = None
   \<and> fst (upload_template_and_reload templates undefined_db_pass ''nginx''
            (snd (upload_template_and_reload templates undefined_db_pass ''nginx''
                    (example_world None ''password = %(db_pass)s''))))
     = Inl (NameError ''db_pass'')"
  by (simp add: sync_defs model_defs)

subsection \<open>The format operator\<close>

lemma fmt_key:
  assumes "CHR ''('' \<notin> set k" and "CHR '')'' \<notin> set k"
  shows "fmt e (InKey 1 k0) acc (k @ CHR '')'' # rest) =
     (case e (k0 @ k) of None \<Rightarrow> Inl (KeyError (k0 @ k)) | Some v \<Rightarrow> fmt e (Conv v) acc rest)"
  using assms by (induction k arbitrary: k0) (auto split: option.splits)

lemma fmt_pieces:
  assumes "list_all plain ps"
  shows "fmt e Text acc (template_text ps) =
     (case spec_substitute e ps of Inl err \<Rightarrow> Inl err | Inr s \<Rightarrow> Inr (acc @ s))"
  using assms
proof (induction ps arbitrary: acc)
  case Nil
  then show ?case by (simp add: template_text_def)
next
  case (Cons p ps)
  then have ih: "\<And>acc. fmt e Text acc (template_text ps) =
     (case spec_substitute e ps of Inl err \<Rightarrow> Inl err | Inr s \<Rightarrow> Inr (acc @ s))"
    by simp
  show ?case
  proof (cases p)
    case (Lit c)
    have t: "template_text (p # ps) = piece_text p @ template_text ps"
      by (simp add: template_text_def)
    show ?thesis unfolding t using Lit ih by (simp split: sum.splits)
  next
    case (Placeholder k)
    with Cons.prems have k: "CHR ''('' \<notin> set k" "CHR '')'' \<notin> set k" by simp_all
    have t: "template_text (p # ps) = CHR ''%'' # CHR ''('' # k @ CHR '')'' # CHR ''s'' # template_text ps"
      using Placeholder by (simp add: template_text_def)
    show ?thesis unfolding t using Placeholder ih fmt_key [OF k, of e "[]"]
      by (simp split: option.splits sum.splits)
  qed
qed

lemma py_format_pieces:
  "list_all plain ps \<Longrightarrow> py_format (template_text ps) e = spec_substitute e ps"
  by (simp add: py_format_def fmt_pieces split: sum.splits)

lemma spec_substitute_missing:
  assumes "Placeholder k \<in> set ps" and "e k = None"
  shows "\<exists>k'. spec_substitute e ps = Inl (KeyError k') \<and> Placeholder k' \<in> set ps \<and> e k' = None"
  using assms
proof (induction ps)
  case Nil
  then show ?case by simp
next
  case (Cons p ps)
  show ?case
  proof (cases p)
    case (Lit c)
    with Cons obtain k' where "spec_substitute e ps = Inl (KeyError k')"
      "Placeholder k' \<in> set ps" "e k' = None" by auto
    with Lit show ?thesis by auto
  next
    case (Placeholder j)
    show ?thesis
    proof (cases "e j")
      case None
      with Placeholder show ?thesis by auto
    next
      case (Some v)
      with Placeholder Cons have "Placeholder k \<in> set ps" by auto
      with Cons obtain k' where "spec_substitute e ps = Inl (KeyError k')"
        "Placeholder k' \<in> set ps" "e k' = None" by auto
      with Placeholder Some show ?thesis by auto
    qed
  qed
qed

lemma spec_substitute_present:
  assumes "\<forall>k. Placeholder k \<in> set ps \<longrightarrow> e k \<noteq> None"
  shows "spec_substitute e ps = Inr (concat (map (expand e) ps))"
  using assms
proof (induction ps)
  case Nil
  then show ?case by simp
next
  case (Cons p ps)
  then show ?case by (cases p) auto
qed

lemma inject_present:
  assumes "list_all plain (fields_pieces d)"
    and "\<forall>k. Placeholder k \<in> set (fields_pieces d) \<longrightarrow> e k \<noteq> None"
  shows "inject e (fields_text d) = Inr (map (\<lambda>(k, ps). (k, concat (map (expand e) ps))) d)"
  using assms
proof (induction d)
  case Nil
  then show ?case by (simp add: fields_text_def)
next
  case (Cons a d)
  obtain k ps where a: "a = (k, ps)" by (cases a)
  from Cons.prems a have p: "list_all plain ps" "list_all plain (fields_pieces d)"
    and q: "\<forall>k. Placeholder k \<in> set ps \<longrightarrow> e k \<noteq> None"
           "\<forall>k. Placeholder k \<in> set (fields_pieces d) \<longrightarrow> e k \<noteq> None"
    by (auto simp: fields_pieces_def)
  have "py_format (template_text ps) e = Inr (concat (map (expand e) ps))"
    using py_format_pieces [OF p(1), of e] spec_substitute_present [where e = e, OF q(1)] by simp
  moreover have "inject e (fields_text d) = Inr (map (\<lambda>(k, ps). (k, concat (map (expand e) ps))) d)"
    using Cons.IH [OF p(2) q(2)] .
  ultimately show ?case using a by (simp add: fields_text_def)
qed

lemma inject_missing:
  assumes "list_all plain (fields_pieces d)"
    and "Placeholder k \<in> set (fields_pieces d)" and "e k = None"
  shows "\<exists>k'. inject e (fields_text d) = Inl (KeyError k')
     \<and> Placeholder k' \<in> set (fields_pieces d) \<and> e k' = None"
  using assms
proof (induction d)
  case Nil
  then show ?case by (simp add: fields_pieces_def)
next
  case (Cons a d)
  obtain f ps where a: "a = (f, ps)" by (cases a)
  from Cons.prems a have p: "list_all plain ps" "list_all plain (fields_pieces d)"
    by (auto simp: fields_pieces_def)
  have fp: "set (fields_pieces (a # d)) = set ps \<union> set (fields_pieces d)"
    using a by (simp add: fields_pieces_def)
  show ?case
  proof (cases "\<exists>j. Placeholder j \<in> set ps \<and> e j = None")
    case True
    then obtain j where "Placeholder j \<in> set ps" "e j = None" by blast
    from spec_substitute_missing [where e = e, OF this] py_format_pieces [OF p(1), of e]
    obtain k' where "py_format (template_text ps) e = Inl (KeyError k')"
      "Placeholder k' \<in> set ps" "e k' = None" by auto
    then show ?thesis using a fp by (auto simp: fields_text_def)
  next
    case False
    then have "\<forall>k. Placeholder k \<in> set ps \<longrightarrow> e k \<noteq> None" by simp
    from spec_substitute_present [where e = e, OF this] py_format_pieces [OF p(1), of e]
    have ok: "py_format (template_text ps) e = Inr (concat (map (expand e) ps))" by simp
    from False Cons.prems fp have "Placeholder k \<in> set (fields_pieces d)" by auto
    from Cons.IH [OF p(2) this Cons.prems(3)] obtain k' where
      "inject e (fields_text d) = Inl (KeyError k')"
      "Placeholder k' \<in> set (fields_pieces d)" "e k' = None" by blast
    then show ?thesis using a fp ok by (auto simp: fields_text_def)
  qed
qed

lemma get_templates_present:
  assumes "list_all plain (registry_pieces r)"
    and "\<forall>k. Placeholder k \<in> set (registry_pieces r) \<longrightarrow> e k \<noteq> None"
  shows "get_templates (registry_text r) e =
     Inr (map (\<lambda>(name, d). (name, map (\<lambda>(k, ps). (k, concat (map (expand e) ps))) d)) r)"
  using assms
proof (induction r)
  case Nil
  then show ?case by (simp add: registry_text_def)
next
  case (Cons a r)
  obtain name d where a: "a = (name, d)" by (cases a)
  from Cons.prems a have p: "list_all plain (fields_pieces d)" "list_all plain (registry_pieces r)"
    and q: "\<forall>k. Placeholder k \<in> set (fields_pieces d) \<longrightarrow> e k \<noteq> None"
           "\<forall>k. Placeholder k \<in> set (registry_pieces r) \<longrightarrow> e k \<noteq> None"
    by (auto simp: registry_pieces_def)
  from inject_present [OF p(1) q(1)] Cons.IH [OF p(2) q(2)] a
  show ?case by (simp add: registry_text_def)
qed

lemma get_templates_missing:
  assumes "list_all plain (registry_pieces r)"
    and "Placeholder k \<in> set (registry_pieces r)" and "e k = None"
  shows "\<exists>k'. get_templates (registry_text r) e = Inl (KeyError k')
     \<and> Placeholder k' \<in> set (registry_pieces r) \<and> e k' = None"
  using assms
proof (induction r)
  case Nil
  then show ?case by (simp add: registry_pieces_def)
next
  case (Cons a r)
  obtain name d where a: "a = (name, d)" by (cases a)
  from Cons.prems a have p: "list_all plain (fields_pieces d)" "list_all plain (registry_pieces r)"
    by (auto simp: registry_pieces_def)
  have rp: "set (registry_pieces (a # r)) = set (fields_pieces d) \<union> set (registry_pieces r)"
    using a by (simp add: registry_pieces_def)
  show ?case
  proof (cases "\<exists>j. Placeholder j \<in> set (fields_pieces d) \<and> e j = None")
    case True
    then obtain j where "Placeholder j \<in> set (fields_pieces d)" "e j = None" by blast
    from inject_missing [where e = e, OF p(1) this] obtain k' where
      "inject e (fields_text d) = Inl (KeyError k')"
      "Placeholder k' \<in> set (fields_pieces d)" "e k' = None" by blast
    then show ?thesis using a rp by (auto simp: registry_text_def)
  next
    case False
    then have "\<forall>k. Placeholder k \<in> set (fields_pieces d) \<longrightarrow> e k \<noteq> None" by simp
    note ok = inject_present [where e = e, OF p(1) this]
    from False Cons.prems rp have "Placeholder k \<in> set (registry_pieces r)" by auto
    from Cons.IH [OF p(2) this Cons.prems(3)] obtain k' where
      "get_templates (registry_text r) e = Inl (KeyError k')"
      "Placeholder k' \<in> set (registry_pieces r)" "e k' = None" by blast
    then show ?thesis using a rp ok by (auto simp: registry_text_def)
  qed
qed

text \<open>
  C6.  For a template made of literal text and \<^verbatim>\<open>%(key)s\<close> placeholders whose keys
  hold no parenthesis, the operator \<^verbatim>\<open>%\<close> of the code does what the specification
  says: when some placeholder's key is missing from the environment it raises
  \<^verbatim>\<open>KeyError\<close> for a missing key of the template, and when every key is present the
  result is the text with every placeholder replaced by the value of its key.  The same
  holds for resolving the registry, whose every field of every template is formatted
  (lines 130-131), and for rendering a local file that does not hold the marker
  \<^verbatim>\<open>%(db_pass)s\<close> (line 154).
\<close>

theorem missing_variable:
  assumes "list_all plain ps" and "list_all plain (registry_pieces r)"
  shows "py_format (template_text ps) e = spec_substitute e ps
     \<and> ((\<exists>k. Placeholder k \<in> set ps \<and> e k = None) \<longrightarrow>
          (\<exists>k. py_format (template_text ps) e = Inl (KeyError k)
               \<and> Placeholder k \<in> set ps \<and> e k = None))
     \<and> ((\<forall>k. Placeholder k \<in> set ps \<longrightarrow> e k \<noteq> None) \<longrightarrow>
          py_format (template_text ps) e = Inr (concat (map (expand e) ps)))
     \<and> ((\<exists>k. Placeholder k \<in> set (registry_pieces r) \<and> e k = None) \<longrightarrow>
          (\<exists>k. get_templates (registry_text r) e = Inl (KeyError k)
               \<and> Placeholder k \<in> set (registry_pieces r) \<and> e k = None))
     \<and> ((\<forall>k. Placeholder k \<in> set (registry_pieces r) \<longrightarrow> e k \<noteq> None) \<longrightarrow>
          get_templates (registry_text r) e =
            Inr (map (\<lambda>(name, d). (name, map (\<lambda>(k, ps). (k, concat (map (expand e) ps))) d)) r))
     \<and> (local_files w lp = Some (template_text ps) \<and> \<not> contains ''%(db_pass)s'' (template_text ps)
          \<longrightarrow> render_local db_pass lp w = (spec_substitute (env w) ps, w))"
proof -
  note f = py_format_pieces [OF assms(1)]
  have a: "(\<exists>k. Placeholder k \<in> set ps \<and> e k = None) \<longrightarrow>
          (\<exists>k. py_format (template_text ps) e = Inl (KeyError k)
               \<and> Placeholder k \<in> set ps \<and> e k = None)"
    unfolding f using spec_substitute_missing by blast
  have b: "(\<forall>k. Placeholder k \<in> set ps \<longrightarrow> e k \<noteq> None) \<longrightarrow>
          py_format (template_text ps) e = Inr (concat (map (expand e) ps))"
    unfolding f using spec_substitute_present by blast
  have c: "(\<exists>k. Placeholder k \<in> set (registry_pieces r) \<and> e k = None) \<longrightarrow>
          (\<exists>k. get_templates (registry_text r) e = Inl (KeyError k)
               \<and> Placeholder k \<in> set (registry_pieces r) \<and> e k = None)"
    using get_templates_missing [OF assms(2)] by blast
  have d: "(\<forall>k. Placeholder k \<in> set (registry_pieces r) \<longrightarrow> e k \<noteq> None) \<longrightarrow>
          get_templates (registry_text r) e =
            Inr (map (\<lambda>(name, d). (name, map (\<lambda>(k, ps). (k, concat (map (expand e) ps))) d)) r)"
    using get_templates_present [OF assms(2)] by blast
  have g: "local_files w lp = Some (template_text ps) \<and> \<not> contains ''%(db_pass)s'' (template_text ps)
          \<longrightarrow> render_local db_pass lp w = (spec_substitute (env w) ps, w)"
    using py_format_pieces [OF assms(1)] by (simp add: render_local_def)
  show ?thesis
    apply (intro conjI)
         apply (rule f)
        apply (rule a)
       apply (rule b)
      apply (rule c)
     apply (rule d)
    apply (rule g)
    done
qed

theorem missing_variable_witness:
  "registry_text templates_pieces = templates
   \<and> (\<exists>k. get_templates templates [''live_host'' \<mapsto> ''ex.org''] = Inl (KeyError k)
          \<and> Placeholder k \<in> set (registry_pieces templates_pieces)
          \<and> [''live_host'' \<mapsto> ''ex.org''] k = None)"
proof -
  note defs = templates_pieces_def registry_text_def fields_text_def template_text_def
    registry_pieces_def fields_pieces_def templates_def
  have t: "registry_text templates_pieces = templates" by (simp add: defs)
  have pl: "list_all plain (registry_pieces templates_pieces)" by (simp add: defs)
  have pl0: "list_all plain []" by simp
  have m: "\<exists>k. Placeholder k \<in> set (registry_pieces templates_pieces)
              \<and> [''live_host'' \<mapsto> ''ex.org''] k = None"
    by (rule exI [of _ "''proj_name''"]) (simp add: defs)
  note th = missing_variable [OF pl0 pl, of "[''live_host'' \<mapsto> ''ex.org'']"]
  from th [THEN conjunct2, THEN conjunct2, THEN conjunct2, THEN conjunct1, THEN mp, OF m]
  have "\<exists>k. get_templates templates [''live_host'' \<mapsto> ''ex.org''] = Inl (KeyError k)
          \<and> Placeholder k \<in> set (registry_pieces templates_pieces)
          \<and> [''live_host'' \<mapsto> ''ex.org''] k = None"
    unfolding t .
  with t show ?thesis by (rule conjI)
qed

subsection \<open>Deployment\<close>

lemma get_templates_names:
  "get_templates tpls e = Inr injected \<Longrightarrow> map fst injected = map fst tpls"
proof (induction tpls arbitrary: injected)
  case Nil
  then show ?case by simp
next
  case (Cons a tpls)
  obtain name d where a: "a = (name, d)" by (cases a)
  with Cons.prems obtain d' ts' where "inject e d = Inr d'" "get_templates tpls e = Inr ts'"
    "injected = (name, d') # ts'"
    by (auto split: sum.splits)
  with Cons.IH [of ts'] a show ?case by simp
qed

lemma same_host_refl: "same_host w w"
  by (simp add: same_host_def)

lemma same_host_trans: "same_host w w1 \<Longrightarrow> same_host w1 w2 \<Longrightarrow> same_host w w2"
  by (simp add: same_host_def)

lemma sync_same_host:
  assumes "upload_template_and_reload tpls db_pass name w = (Inr r, w')"
  shows "same_host w w'"
proof -
  from sync_Inr [OF assms] obtain t rd ld w2 where
    p: "prepare tpls db_pass name w = (Inr (t, rd, ld), w2)" by blast
  from prepare_facts [OF p] have s: "same_host w w2" by blast
  show ?thesis
  proof (cases "clean rd = clean ld")
    case True
    from sync_equal [OF p True] assms s show ?thesis by simp
  next
    case False
    from sync_differ [OF p False] assms s show ?thesis
      by (auto simp: same_host_def split: if_splits)
  qed
qed

lemma sync_all_same_host:
  "sync_all tpls db_pass names w = (Inr u, w') \<Longrightarrow> same_host w w'"
proof (induction names arbitrary: w)
  case Nil
  then show ?case by (simp add: same_host_refl)
next
  case (Cons name names)
  obtain r1 w1 where s: "upload_template_and_reload tpls db_pass name w = (r1, w1)"
    by (cases "upload_template_and_reload tpls db_pass name w")
  with Cons.prems obtain r where r: "r1 = Inr r" and rest: "sync_all tpls db_pass names w1 = (Inr u, w')"
    by (cases r1) auto
  from s r have "same_host w w1" by (auto intro: sync_same_host)
  moreover from Cons.IH [OF rest] have "same_host w1 w'" .
  ultimately show ?case by (rule same_host_trans)
qed

lemma record_and_pull_Inr:
  assumes "record_and_pull w = (Inr u, w')"
  shows "\<exists>p. env w ''proj_path'' = Some p
     \<and> w' = w\<lparr>remote := (remote w)(p @ ''/last.commit'' \<mapsto> head w),
              head := origin_master w,
              trace := trace w @ [Run (in_project p ''git rev-parse HEAD > last.commit''),
                                  Run (in_project p ''git pull origin master'')]\<rparr>"
  using assms
  by (auto simp: record_and_pull_def env_attr_def run_in_def git_effect_def log_def Let_def
           split: option.splits if_splits)

lemma restart_Inr:
  assumes "restart w = (Inr r, w')"
  shows "\<exists>c. w' = w\<lparr>trace := trace w @ [Exists ''/var/run/nginx.pid'', Sudo c]\<rparr>
     \<and> r = PyNone
     \<and> (if remote w ''/var/run/nginx.pid'' \<noteq> None
         then c = ''kill -HUP `cat /var/run/nginx.pid`''
         else \<exists>n. env w ''proj_name'' = Some n \<and> c = ''supervisorctl start '' @ n @ '':nginx'')"
  using assms
  by (auto simp: restart_def exists_remote_def sudo_def env_attr_def log_def Let_def
           split: option.splits if_splits)

lemma rollback_head:
  assumes "rollback w = (Inr r, w')" and "env w ''proj_path'' = Some p"
    and "remote w (p @ ''/last.commit'') = Some revision"
  shows "head w' = revision"
proof -
  from assms obtain out w1 where
    c: "run_in p ''git checkout `cat last.commit`'' w = (Inr out, w1)" and r: "restart w1 = (Inr r, w')"
    by (auto simp: rollback_def env_attr_def split: prod.splits sum.splits)
  from c assms(3) have "head w1 = revision"
    by (auto simp: run_in_def git_effect_def log_def Let_def split: if_splits)
  with restart_Inr [OF r] show ?thesis by auto
qed


lemma sync_step:
  assumes "upload_template_and_reload tpls db_pass name w = (Inr r, w')"
  shows "r = PyNone \<and> (\<exists>es. trace w' = trace w @ es)"
proof -
  from sync_Inr [OF assms] obtain t rd ld w2 where
    p: "prepare tpls db_pass name w = (Inr (t, rd, ld), w2)" by blast
  from prepare_facts [OF p] obtain es where t2: "trace w2 = trace w @ es" by blast
  show ?thesis
  proof (cases "clean rd = clean ld")
    case True
    from sync_equal [OF p True] assms t2 show ?thesis by simp
  next
    case False
    from sync_differ [OF p False] assms t2 show ?thesis
      by (auto split: if_splits)
  qed
qed

lemma sync_all_chain:
  assumes "sync_all tpls db_pass names w = (Inr u, w1)"
  shows "\<exists>ws. length ws = Suc (length names) \<and> ws ! 0 = w \<and> ws ! length names = w1
     \<and> (\<forall>i < length names.
           upload_template_and_reload tpls db_pass (names ! i) (ws ! i) = (Inr PyNone, ws ! Suc i)
           \<and> (\<exists>es. trace (ws ! Suc i) = trace (ws ! i) @ es))"
  using assms
proof (induction names arbitrary: w)
  case Nil
  then show ?case by (intro exI [of _ "[w]"]) simp
next
  case (Cons name names)
  obtain r1 wa where s: "upload_template_and_reload tpls db_pass name w = (r1, wa)"
    by (cases "upload_template_and_reload tpls db_pass name w")
  with Cons.prems obtain r where r: "r1 = Inr r"
    and rest: "sync_all tpls db_pass names wa = (Inr u, w1)"
    by (cases r1) auto
  from s r have s': "upload_template_and_reload tpls db_pass name w = (Inr r, wa)" by simp
  from sync_step [OF s'] obtain es where none: "r = PyNone" and tr: "trace wa = trace w @ es"
    by blast
  from Cons.IH [OF rest] obtain ws where
    ws: "length ws = Suc (length names)" "ws ! 0 = wa" "ws ! length names = w1"
    and step: "\<forall>i < length names.
           upload_template_and_reload tpls db_pass (names ! i) (ws ! i) = (Inr PyNone, ws ! Suc i)
           \<and> (\<exists>es. trace (ws ! Suc i) = trace (ws ! i) @ es)"
    by blast
  have "\<forall>i < length (name # names).
           upload_template_and_reload tpls db_pass ((name # names) ! i) ((w # ws) ! i)
             = (Inr PyNone, (w # ws) ! Suc i)
           \<and> (\<exists>es. trace ((w # ws) ! Suc i) = trace ((w # ws) ! i) @ es)"
  proof (intro allI impI)
    fix i
    assume i: "i < length (name # names)"
    show "upload_template_and_reload tpls db_pass ((name # names) ! i) ((w # ws) ! i)
             = (Inr PyNone, (w # ws) ! Suc i)
           \<and> (\<exists>es. trace ((w # ws) ! Suc i) = trace ((w # ws) ! i) @ es)"
    proof (cases i)
      case 0
      with s' none tr ws(2) show ?thesis by simp
    next
      case (Suc j)
      with i have "j < length names" by simp
      with step Suc show ?thesis by simp
    qed
  qed
  with ws show ?case by (intro exI [of _ "w # ws"]) simp
qed

text \<open>
  C9.  A deployment that returns has, in this order: synchronised every template of the
  registry once, in the registry's order, each call of \<open>upload_template_and_reload\<close>
  returning and starting from the state the one before it left; then run
  \<^verbatim>\<open>git rev-parse HEAD > last.commit\<close> and then \<^verbatim>\<open>git pull origin master\<close> in the
  project's directory; then restarted the service: the existence test of
  \<^verbatim>\<open>/var/run/nginx.pid\<close> followed by \<^verbatim>\<open>kill -HUP\<close> of the recorded process when the file
  exists and by \<^verbatim>\<open>supervisorctl start\<close> of the project's nginx otherwise.  These four are
  the last operations of the trace and it returns \<^verbatim>\<open>True\<close>.  The file \<^verbatim>\<open>last.commit\<close>
  then holds the revision checked out before the deployment, the checkout is at the
  latest upstream revision, and a rollback that returns leaves the checkout at the
  revision from before the deployment.
\<close>

theorem deploy_order:
  assumes "deploy tpls db_pass w = (Inr r, w')"
  shows "r = PyTrue \<and>
     (\<exists>ws p c.
        length ws = Suc (length tpls) \<and> ws ! 0 = w
        \<and> (\<forall>i < length tpls.
              upload_template_and_reload tpls db_pass (fst (tpls ! i)) (ws ! i)
                = (Inr PyNone, ws ! Suc i)
              \<and> (\<exists>es. trace (ws ! Suc i) = trace (ws ! i) @ es))
        \<and> env (ws ! length tpls) ''proj_path'' = Some p
        \<and> trace w' = trace (ws ! length tpls) @
             [Run (in_project p ''git rev-parse HEAD > last.commit''),
              Run (in_project p ''git pull origin master''),
              Exists ''/var/run/nginx.pid'', Sudo c]
        \<and> (if remote w' ''/var/run/nginx.pid'' \<noteq> None
            then c = ''kill -HUP `cat /var/run/nginx.pid`''
            else \<exists>n. env w' ''proj_name'' = Some n \<and> c = ''supervisorctl start '' @ n @ '':nginx'')
        \<and> remote w' (p @ ''/last.commit'') = Some (head w)
        \<and> head w' = origin_master w
        \<and> (\<forall>r2 w''. rollback w' = (Inr r2, w'') \<longrightarrow> head w'' = head w))"
proof -
  from assms obtain injected where gt: "get_templates tpls (env w) = Inr injected"
    by (auto simp: deploy_def split: sum.splits)
  from get_templates_names [OF gt] have names: "map fst injected = map fst tpls" .
  from assms gt names obtain u1 w1 u2 w2 r3 where
    s: "sync_all tpls db_pass (map fst tpls) w = (Inr u1, w1)"
    and rp: "record_and_pull w1 = (Inr u2, w2)"
    and rs: "restart w2 = (Inr r3, w')" and r: "r = PyTrue"
    by (auto simp: deploy_def split: sum.splits prod.splits)
  from sync_all_same_host [OF s] have h: "head w1 = head w" "origin_master w1 = origin_master w"
    by (simp_all add: same_host_def)
  from sync_all_chain [OF s] obtain ws where
    len: "length ws = Suc (length tpls)" and w0: "ws ! 0 = w" and wl: "ws ! length tpls = w1"
    and step0: "\<forall>i < length (map fst tpls).
           upload_template_and_reload tpls db_pass (map fst tpls ! i) (ws ! i) = (Inr PyNone, ws ! Suc i)
           \<and> (\<exists>es. trace (ws ! Suc i) = trace (ws ! i) @ es)"
    by auto
  have step: "\<forall>i < length tpls.
              upload_template_and_reload tpls db_pass (fst (tpls ! i)) (ws ! i)
                = (Inr PyNone, ws ! Suc i)
              \<and> (\<exists>es. trace (ws ! Suc i) = trace (ws ! i) @ es)"
    using step0 by simp
  from record_and_pull_Inr [OF rp] obtain p where
    p: "env w1 ''proj_path'' = Some p"
    and w2: "w2 = w1\<lparr>remote := (remote w1)(p @ ''/last.commit'' \<mapsto> head w1),
              head := origin_master w1,
              trace := trace w1 @ [Run (in_project p ''git rev-parse HEAD > last.commit''),
                                  Run (in_project p ''git pull origin master'')]\<rparr>"
    by blast
  from restart_Inr [OF rs] obtain c where
    w': "w' = w2\<lparr>trace := trace w2 @ [Exists ''/var/run/nginx.pid'', Sudo c]\<rparr>"
    and c2: "if remote w2 ''/var/run/nginx.pid'' \<noteq> None
         then c = ''kill -HUP `cat /var/run/nginx.pid`''
         else \<exists>n. env w2 ''proj_name'' = Some n \<and> c = ''supervisorctl start '' @ n @ '':nginx''"
    by blast
  have p': "env (ws ! length tpls) ''proj_path'' = Some p" using p wl by simp
  have b: "trace w' = trace (ws ! length tpls) @
             [Run (in_project p ''git rev-parse HEAD > last.commit''),
              Run (in_project p ''git pull origin master''),
              Exists ''/var/run/nginx.pid'', Sudo c]"
    by (simp add: w' w2 wl)
  have rw: "remote w' = remote w2" "env w' = env w2" by (simp_all add: w')
  have c': "if remote w' ''/var/run/nginx.pid'' \<noteq> None
            then c = ''kill -HUP `cat /var/run/nginx.pid`''
            else \<exists>n. env w' ''proj_name'' = Some n \<and> c = ''supervisorctl start '' @ n @ '':nginx''"
    unfolding rw by (rule c2)
  have d: "remote w' (p @ ''/last.commit'') = Some (head w)" by (simp add: w' w2 h)
  have e: "head w' = origin_master w" by (simp add: w' w2 h)
  have pe: "env w' ''proj_path'' = Some p" using p by (simp add: w' w2)
  have f: "\<forall>r2 w''. rollback w' = (Inr r2, w'') \<longrightarrow> head w'' = head w"
    using rollback_head [OF _ pe d] by blast
  show ?thesis
    apply (rule conjI)
     apply (rule r)
    apply (rule exI [of _ ws])
    apply (rule exI [of _ p])
    apply (rule exI [of _ c])
    apply (intro conjI)
            apply (rule len)
           apply (rule w0)
          apply (rule step)
         apply (rule p')
        apply (rule b)
       apply (rule c')
      apply (rule d)
     apply (rule e)
    apply (rule f)
    done
qed

theorem deploy_order_witness:
  "trace (snd (deploy templates undefined_db_pass (example_world None ''new''))) =
     [Exists ''/etc/nginx/sites-enabled/ex.org.conf'',
      Upload ''/etc/nginx/sites-enabled/ex.org.conf'' ''new'',
      Sudo ''service nginx restart'',
      Exists ''/etc/supervisor/conf.d/blog.conf'',
      Upload ''/etc/supervisor/conf.d/blog.conf'' ''[program:blog]'',
      Sudo ''supervisorctl reload'',
      Run ''cd /home/u/blog && git rev-parse HEAD > last.commit'',
      Run ''cd /home/u/blog && git pull origin master'',
      Exists ''/var/run/nginx.pid'',
      Sudo ''supervisorctl start blog:nginx'']
   \<and> (\<exists>ws p c.
        length ws = Suc (length templates) \<and> ws ! 0 = example_world None ''new''
        \<and> (\<forall>i < length templates.
              upload_template_and_reload templates undefined_db_pass (fst (templates ! i)) (ws ! i)
                = (Inr PyNone, ws ! Suc i)
              \<and> (\<exists>es. trace (ws ! Suc i) = trace (ws ! i) @ es))
        \<and> env (ws ! length templates) ''proj_path'' = Some p
        \<and> trace (snd (deploy templates undefined_db_pass (example_world None ''new''))) =
             trace (ws ! length templates) @
             [Run (in_project p ''git rev-parse HEAD > last.commit''),
              Run (in_project p ''git pull origin master''),
              Exists ''/var/run/nginx.pid'', Sudo c]
        \<and> (if remote (snd (deploy templates undefined_db_pass (example_world None ''new'')))
                 ''/var/run/nginx.pid'' \<noteq> None
            then c = ''kill -HUP `cat /var/run/nginx.pid`''
            else \<exists>n. env (snd (deploy templates undefined_db_pass (example_world None ''new'')))
                        ''proj_name'' = Some n
                     \<and> c = ''supervisorctl start '' @ n @ '':nginx'')
        \<and> remote (snd (deploy templates undefined_db_pass (example_world None ''new'')))
              (p @ ''/last.commit'') = Some (head (example_world None ''new''))
        \<and> head (snd (deploy templates undefined_db_pass (example_world None ''new'')))
            = origin_master (example_world None ''new'')
        \<and> (\<forall>r2 w''. rollback (snd (deploy templates undefined_db_pass (example_world None ''new'')))
                        = (Inr r2, w'')
              \<longrightarrow> head w'' = head (example_world None ''new'')))
   \<and> head (snd (rollback (snd (deploy templates undefined_db_pass (example_world None ''new'')))))
       = ''r1''"
proof -
  let ?w = "example_world None ''new''"
  let ?w' = "snd (deploy templates undefined_db_pass ?w)"
  note defs = deploy_def record_and_pull_def restart_def run_in_def git_effect_def env_attr_def
    in_project_def rollback_def sync_defs model_defs
  have t: "trace ?w' =
     [Exists ''/etc/nginx/sites-enabled/ex.org.conf'',
      Upload ''/etc/nginx/sites-enabled/ex.org.conf'' ''new'',
      Sudo ''service nginx restart'',
      Exists ''/etc/supervisor/conf.d/blog.conf'',
      Upload ''/etc/supervisor/conf.d/blog.conf'' ''[program:blog]'',
      Sudo ''supervisorctl reload'',
      Run ''cd /home/u/blog && git rev-parse HEAD > last.commit'',
      Run ''cd /home/u/blog && git pull origin master'',
      Exists ''/var/run/nginx.pid'',
      Sudo ''supervisorctl start blog:nginx'']"
    by (simp add: defs)
  have "fst (deploy templates undefined_db_pass ?w) = Inr PyTrue"
    by (simp add: defs)
  then have s: "deploy templates undefined_db_pass ?w = (Inr PyTrue, ?w')"
    by (simp add: prod_eq_iff)
  have "fst (rollback ?w') = Inr PyNone"
    by (simp add: defs)
  then have b: "rollback ?w' = (Inr PyNone, snd (rollback ?w'))"
    by (simp add: prod_eq_iff)
  note order = deploy_order [OF s, THEN conjunct2]
  from order obtain ws p c where
    r: "\<forall>r2 w''. rollback ?w' = (Inr r2, w'') \<longrightarrow> head w'' = head ?w"
    by blast
  from r b have "head (snd (rollback ?w')) = head ?w" by blast
  then have h: "head (snd (rollback ?w')) = ''r1''" by (simp add: example_world_def)
  show ?thesis
    apply (intro conjI)
      apply (rule t)
     apply (rule order)
    apply (rule h)
    done
qed

end
